theory Spec2Isabelle
  imports Complex_Main "HOL-Library.Multiset"
begin

section \<open>Weighted blending of gridded data (improver, \<open>weighted_blend.py\<close>)\<close>

text \<open>
  The module blends a data cube along one coordinate, either through a weighted mean or,
  for percentile data, through \<open>PercentileBlendingAggregator\<close>. The embedding follows the
  Python source function by function. Two conventions hold throughout:

  \<^item> numpy's double precision numbers are idealised as the exact reals (\<open>real\<close>): there is
    no rounding, no infinity and no NaN. Every statement below is a statement about the
    algorithm in exact arithmetic.
  \<^item> every exception of the source is a value \<open>Inl e\<close> of the result type \<open>error + 'a\<close>.
\<close>

subsection \<open>Errors\<close>

datatype error =
    NotACube                    \<comment> \<open>ValueError: The first argument must be an instance of iris.cube.Cube\<close>
  | PercentileNotDimension      \<comment> \<open>ValueError: The percentile coord must be a dimension of the cube.\<close>
  | PercentileTooFewPoints      \<comment> \<open>ValueError: Percentile coordinate does not have enough points ...\<close>
  | MultiplePercentileCoords    \<comment> \<open>ValueError: There should only be one percentile coord on the cube.\<close>
  | WeightShapeMismatch         \<comment> \<open>ValueError: The weights array must match the shape of the coordinate ...\<close>
  | CoordinateNotFoundError     \<comment> \<open>iris: no coordinate, or several, of the requested name\<close>
  | CoordinateCollapseError     \<comment> \<open>iris: Cannot collapse a dimension which does not describe any data.\<close>
  | GuessBoundsError            \<comment> \<open>iris: ValueError of \<open>Coord.guess_bounds\<close>\<close>
  | AxisError                   \<comment> \<open>numpy: axis out of bounds, or repeated axis\<close>
  | ReshapeError                \<comment> \<open>numpy: cannot reshape array of size m into shape s\<close>
  | BroadcastError              \<comment> \<open>numpy: operands could not be broadcast together\<close>
  | InterpEmpty                 \<comment> \<open>numpy: ValueError: array of sample points is empty\<close>
  | InterpLengthMismatch        \<comment> \<open>numpy: ValueError: fp and xp are not of the same length.\<close>
  | PointsShapeError            \<comment> \<open>iris: ValueError: New points shape must match existing points shape.\<close>
  | BoundsShapeError            \<comment> \<open>iris: ValueError: Bounds shape must be compatible with points shape.\<close>
  | IndexError                  \<comment> \<open>Python: index out of range\<close>
  | UnpackError                 \<comment> \<open>Python: ValueError of unpacking a tuple that has not one element\<close>
  | CollaboratorError           \<comment> \<open>an exception raised by a collaborator outside this module\<close>

text \<open>The three messages that the percentile checks of \<open>process\<close> raise.\<close>

definition is_PercentileDimensionError :: "error \<Rightarrow> bool" where
  "is_PercentileDimensionError e \<longleftrightarrow>
     e = PercentileNotDimension \<or> e = PercentileTooFewPoints \<or> e = MultiplePercentileCoords"

subsection \<open>\<open>numpy.interp\<close>\<close>

text \<open>
  \<open>np.interp(x, xp, fp)\<close> with the default \<open>left = fp[0]\<close> and \<open>right = fp[-1]\<close>. For one
  query point numpy first looks for the segment index \<open>j\<close>: it is \<open>len\<close> when
  \<open>x > xp[-1]\<close>, \<open>-1\<close> when \<open>x < xp[0]\<close>, and otherwise one less than the first index
  \<open>i \<ge> 1\<close> with \<open>x < xp[i]\<close> (or than \<open>len\<close> when there is none). The value is \<open>fp[-1]\<close>,
  \<open>fp[0]\<close>, \<open>fp[j]\<close> when \<open>j\<close> is the last index or \<open>xp[j] = x\<close>, and
  \<open>slope * (x - xp[j]) + fp[j]\<close> otherwise. \<open>interp_scan\<close> is the linear scan that numpy
  runs on short arrays; on a sorted \<open>xp\<close> the bisection that numpy runs on longer arrays
  finds the same index. On an unsorted \<open>xp\<close> numpy documents its result as meaningless.
\<close>

fun interp_scan :: "real \<Rightarrow> (real \<times> real) list \<Rightarrow> real" where
  "interp_scan x [] = 0"
| "interp_scan x [(a, fa)] = fa"
| "interp_scan x ((a, fa) # (b, fb) # ps) =
     (if x < b
      then (if a = x then fa else (fb - fa) / (b - a) * (x - a) + fa)
      else interp_scan x ((b, fb) # ps))"

definition interp_point :: "real list \<Rightarrow> real list \<Rightarrow> real \<Rightarrow> real" where
  "interp_point xp fp x =
     (if x > last xp then last fp
      else if x < hd xp then hd fp
      else interp_scan x (zip xp fp))"

definition np_interp :: "real list \<Rightarrow> real list \<Rightarrow> real list \<Rightarrow> error + real list" where
  "np_interp x xp fp =
     (if xp = [] then Inl InterpEmpty
      else if length fp \<noteq> length xp then Inl InterpLengthMismatch
      else Inr (map (interp_point xp fp) x))"

subsection \<open>\<open>PercentileBlendingAggregator.blend_percentiles\<close>\<close>

text \<open>
  \<open>perc_values\<close> is the matrix of shape (length of the blend coordinate, number of
  percentiles), given by its rows. \<open>accumulate_row\<close> is the inner loop over \<open>j\<close> for one
  \<open>i\<close>: it adds \<open>recalc_values_in_pdf * weights[j]\<close> to the row \<open>combined_pdf[i]\<close>, which
  starts as zeros. \<open>combined_rows\<close> is the outer loop over \<open>i\<close>.
\<close>

fun accumulate_row ::
  "real list list \<Rightarrow> real list \<Rightarrow> real list \<Rightarrow> nat \<Rightarrow> nat list \<Rightarrow> real list
     \<Rightarrow> error + real list" where
  "accumulate_row perc_values percentiles weights i [] acc = Inr acc"
| "accumulate_row perc_values percentiles weights i (j # js) acc =
     (case (if i = j then Inr percentiles
            else np_interp (perc_values ! i) (perc_values ! j) percentiles) of
        Inl e \<Rightarrow> Inl e
      | Inr recalc_values_in_pdf \<Rightarrow>
          if length weights \<le> j then Inl IndexError
          else if length recalc_values_in_pdf \<noteq> length acc then Inl BroadcastError
          else accumulate_row perc_values percentiles weights i js
                 (map2 (+) acc (map (\<lambda>v. v * weights ! j) recalc_values_in_pdf)))"

fun combined_rows ::
  "real list list \<Rightarrow> real list \<Rightarrow> real list \<Rightarrow> nat list \<Rightarrow> error + real list list" where
  "combined_rows perc_values percentiles weights [] = Inr []"
| "combined_rows perc_values percentiles weights (i # is) =
     (case accumulate_row perc_values percentiles weights i [0..<length perc_values]
             (replicate (length percentiles) 0) of
        Inl e \<Rightarrow> Inl e
      | Inr row \<Rightarrow>
          (case combined_rows perc_values percentiles weights is of
             Inl e \<Rightarrow> Inl e
           | Inr rows \<Rightarrow> Inr (row # rows)))"

definition blend_percentiles ::
  "real list list \<Rightarrow> real list \<Rightarrow> real list \<Rightarrow> error + real list" where
  "blend_percentiles perc_values percentiles weights =
     (case combined_rows perc_values percentiles weights [0..<length perc_values] of
        Inl e \<Rightarrow> Inl e
      | Inr combined_pdf \<Rightarrow>
          (let combined_perc_thres_data = sort (concat perc_values);
               combined_perc_values = sort (concat combined_pdf)
           in np_interp percentiles combined_perc_values combined_perc_thres_data))"

subsection \<open>numpy arrays\<close>

text \<open>
  An n-dimensional array is its shape and its elements in row-major order, the layout of a
  C-contiguous numpy array. Every numpy operation used by the module is modelled by its
  documented value: a transposed array is materialised in the order of its new shape, so
  that \<open>reshape\<close> is a change of shape over the same elements.
\<close>

record ndarray =
  shape :: "nat list"
  flat :: "real list"

definition ndim :: "ndarray \<Rightarrow> nat" where
  "ndim a = length (shape a)"

definition wf_array :: "ndarray \<Rightarrow> bool" where
  "wf_array a \<longleftrightarrow> length (flat a) = prod_list (shape a)"

definition valid_index :: "nat list \<Rightarrow> nat list \<Rightarrow> bool" where
  "valid_index shp idx \<longleftrightarrow> list_all2 (<) idx shp"

text \<open>Row-major position of a multi-index, and the multi-index of a position.\<close>

fun ravel :: "nat list \<Rightarrow> nat list \<Rightarrow> nat" where
  "ravel (n # ns) (i # is) = i * prod_list ns + ravel ns is"
| "ravel ns is = 0"

fun unravel :: "nat list \<Rightarrow> nat \<Rightarrow> nat list" where
  "unravel [] k = []"
| "unravel (n # ns) k = (k div prod_list ns) # unravel ns (k mod prod_list ns)"

text \<open>\<open>a[idx]\<close> for a full multi-index within the shape.\<close>

definition item :: "ndarray \<Rightarrow> nat list \<Rightarrow> real" where
  "item a idx = flat a ! ravel (shape a) idx"

definition from_function :: "nat list \<Rightarrow> (nat list \<Rightarrow> real) \<Rightarrow> ndarray" where
  "from_function shp f = \<lparr>shape = shp, flat = map (\<lambda>k. f (unravel shp k)) [0..<prod_list shp]\<rparr>"

definition np_zeros :: "nat list \<Rightarrow> ndarray" where
  "np_zeros shp = \<lparr>shape = shp, flat = replicate (prod_list shp) 0\<rparr>"

text \<open>\<open>a.reshape(new_shape)\<close>, for a new shape without the placeholder \<open>-1\<close>.\<close>

definition np_reshape :: "ndarray \<Rightarrow> nat list \<Rightarrow> error + ndarray" where
  "np_reshape a new_shape =
     (if prod_list new_shape = length (flat a) then Inr (a\<lparr>shape := new_shape\<rparr>)
      else Inl ReshapeError)"

text \<open>
  \<open>a.transpose(order)\<close>: axis \<open>m\<close> of the result is axis \<open>order[m]\<close> of \<open>a\<close>, so the element
  at \<open>idx\<close> of the result is the element of \<open>a\<close> whose index has \<open>idx[m]\<close> at position
  \<open>order[m]\<close>.
\<close>

fun position :: "nat \<Rightarrow> nat list \<Rightarrow> nat" where
  "position d [] = 0"
| "position d (x # xs) = (if x = d then 0 else Suc (position d xs))"

definition np_transpose :: "ndarray \<Rightarrow> nat list \<Rightarrow> ndarray" where
  "np_transpose a order =
     from_function (map (\<lambda>d. shape a ! d) order)
       (\<lambda>idx. item a (map (\<lambda>d. idx ! position d order) [0..<ndim a]))"

text \<open>
  \<open>numpy.core.numeric.normalize_axis_tuple\<close>: every axis lies in \<open>[-ndim, ndim)\<close>, a
  negative one counts from the end, and no axis is repeated.
\<close>

definition normalize_axis_index :: "int \<Rightarrow> nat \<Rightarrow> error + nat" where
  "normalize_axis_index axis nd =
     (if - int nd \<le> axis \<and> axis < int nd
      then Inr (nat (if axis < 0 then axis + int nd else axis))
      else Inl AxisError)"

fun normalize_axes :: "int list \<Rightarrow> nat \<Rightarrow> error + nat list" where
  "normalize_axes [] nd = Inr []"
| "normalize_axes (axis # axes) nd =
     (case normalize_axis_index axis nd of
        Inl e \<Rightarrow> Inl e
      | Inr a \<Rightarrow> (case normalize_axes axes nd of Inl e \<Rightarrow> Inl e | Inr as \<Rightarrow> Inr (a # as)))"

definition normalize_axis_tuple :: "int list \<Rightarrow> nat \<Rightarrow> error + nat list" where
  "normalize_axis_tuple axes nd =
     (case normalize_axes axes nd of
        Inl e \<Rightarrow> Inl e
      | Inr as \<Rightarrow> if distinct as then Inr as else Inl AxisError)"

text \<open>Python's \<open>list.insert(k, x)\<close> for \<open>k \<ge> 0\<close>; beyond the end it appends.\<close>

definition list_insert :: "nat \<Rightarrow> 'a \<Rightarrow> 'a list \<Rightarrow> 'a list" where
  "list_insert k x xs = take k xs @ x # drop k xs"

text \<open>
  \<open>np.moveaxis(a, source, destination)\<close>: the axes not in \<open>source\<close> keep their order, and
  the pairs (destination, source), sorted by destination, are inserted in turn.
\<close>

definition np_moveaxis :: "ndarray \<Rightarrow> int list \<Rightarrow> int list \<Rightarrow> error + ndarray" where
  "np_moveaxis a source destination =
     (case normalize_axis_tuple source (ndim a) of
        Inl e \<Rightarrow> Inl e
      | Inr src \<Rightarrow>
          (case normalize_axis_tuple destination (ndim a) of
             Inl e \<Rightarrow> Inl e
           | Inr dst \<Rightarrow>
               if length src \<noteq> length dst then Inl AxisError
               else
                 let order = filter (\<lambda>n. n \<notin> set src) [0..<ndim a];
                     order = foldl (\<lambda>order (dest, src). list_insert dest src order) order
                               (sort_key fst (zip dst src))
                 in Inr (np_transpose a order)))"

subsection \<open>\<open>PercentileBlendingAggregator.aggregate\<close>\<close>

text \<open>\<open>data[:, :, i]\<close> of a three-dimensional array, as the list of its rows.\<close>

definition slice_2d :: "ndarray \<Rightarrow> nat \<Rightarrow> real list list" where
  "slice_2d data i =
     map (\<lambda>b. map (\<lambda>l. item data [b, l, i]) [0..<shape data ! 1]) [0..<shape data ! 0]"

text \<open>
  \<open>result[:, i] = v\<close> on a two-dimensional array: \<open>v\<close> has the length of the first axis, or
  it has one element, which numpy broadcasts.
\<close>

definition set_column :: "ndarray \<Rightarrow> nat \<Rightarrow> real list \<Rightarrow> error + ndarray" where
  "set_column result i v =
     (let n = shape result ! 0; m = shape result ! 1 in
      if length v = n
        then Inr (result\<lparr>flat := foldl (\<lambda>f l. f[l * m + i := v ! l]) (flat result) [0..<n]\<rparr>)
      else if length v = 1
        then Inr (result\<lparr>flat := foldl (\<lambda>f l. f[l * m + i := v ! 0]) (flat result) [0..<n]\<rparr>)
      else Inl BroadcastError)"

text \<open>The loop over the flattened points: one call of \<open>blend_percentiles\<close> for each.\<close>

fun blend_columns ::
  "ndarray \<Rightarrow> real list \<Rightarrow> real list \<Rightarrow> nat list \<Rightarrow> ndarray \<Rightarrow> error + ndarray" where
  "blend_columns data arr_percent arr_weights [] result = Inr result"
| "blend_columns data arr_percent arr_weights (i # is) result =
     (case blend_percentiles (slice_2d data i) arr_percent arr_weights of
        Inl e \<Rightarrow> Inl e
      | Inr v \<Rightarrow>
          (case set_column result i v of
             Inl e \<Rightarrow> Inl e
           | Inr result' \<Rightarrow> blend_columns data arr_percent arr_weights is result'))"

definition aggregate ::
  "ndarray \<Rightarrow> int \<Rightarrow> real list \<Rightarrow> real list \<Rightarrow> int \<Rightarrow> error + ndarray" where
  "aggregate data axis arr_percent arr_weights perc_dim =
     (let axis = (if axis < 0 then axis + int (ndim data) else axis) in
      case np_moveaxis data [perc_dim, axis] [1, 0] of
        Inl e \<Rightarrow> Inl e
      | Inr data \<Rightarrow>
          let shp = drop 2 (shape data);
              input_shape = [shape data ! 0, shape data ! 1, prod_list shp]
          in
          (case np_reshape data input_shape of
             Inl e \<Rightarrow> Inl e
           | Inr data \<Rightarrow>
               (case blend_columns data arr_percent arr_weights [0..<last (shape data)]
                       (np_zeros (tl input_shape)) of
                  Inl e \<Rightarrow> Inl e
                | Inr result \<Rightarrow>
                    (case np_reshape result ([length arr_percent] @ shp) of
                       Inl e \<Rightarrow> Inl e
                     | Inr result \<Rightarrow>
                         if axis < perc_dim then np_moveaxis result [0] [perc_dim - 1]
                         else np_moveaxis result [0] [perc_dim]))))"

text \<open>
  Two notions used to state what \<open>aggregate\<close> returns: a list (a shape or a multi-index)
  without its entry at one axis, and the matrix that \<open>blend_percentiles\<close> receives for the
  grid point of a multi-index \<open>idx\<close> of the input array: row \<open>b\<close> holds the values at
  position \<open>b\<close> of the blend axis, column \<open>l\<close> those at position \<open>l\<close> of the percentile axis.
\<close>

definition delete_axis :: "nat \<Rightarrow> 'a list \<Rightarrow> 'a list" where
  "delete_axis k xs = take k xs @ drop (Suc k) xs"

definition point_slices :: "ndarray \<Rightarrow> nat \<Rightarrow> nat \<Rightarrow> nat list \<Rightarrow> real list list" where
  "point_slices data axis perc_dim idx =
     map (\<lambda>b. map (\<lambda>l. item data (idx[axis := b, perc_dim := l])) [0..<shape data ! perc_dim])
       [0..<shape data ! axis]"


subsection \<open>Cubes and coordinates\<close>

text \<open>
  The cube is the container of the iris library; the module only uses its interface. A
  coordinate has a name, points, optional bounds (one pair for each point) and at most one
  data dimension that it describes: \<open>data_dim = None\<close> is a scalar coordinate, for which
  \<open>cube.coord_dims\<close> returns the empty tuple. Coordinates are one-dimensional. The
  operations of the library are modelled by their documented results.
\<close>

record coordinate =
  name :: string
  points :: "real list"
  bounds :: "(real \<times> real) list option"
  data_dim :: "nat option"

record cube =
  data :: ndarray
  coords :: "coordinate list"

text \<open>
  What iris guarantees of a cube: a coordinate along a dimension has one point for each
  position of that dimension, a scalar coordinate has exactly one point, bounds come one for
  each point, and the data has one element for each index of its shape.
\<close>

definition wf_coordinate :: "nat list \<Rightarrow> coordinate \<Rightarrow> bool" where
  "wf_coordinate shp c \<longleftrightarrow>
     (case data_dim c of
        None \<Rightarrow> length (points c) = 1
      | Some d \<Rightarrow> d < length shp \<and> length (points c) = shp ! d)
     \<and> (case bounds c of None \<Rightarrow> True | Some bs \<Rightarrow> length bs = length (points c))"

definition wf_cube :: "cube \<Rightarrow> bool" where
  "wf_cube cube \<longleftrightarrow>
     wf_array (data cube) \<and> list_all (wf_coordinate (shape (data cube))) (coords cube)
       \<and> distinct (map name (coords cube))"

text \<open>\<open>cube.coord(name)\<close> raises unless exactly one coordinate has the name.\<close>

definition cube_coord :: "cube \<Rightarrow> string \<Rightarrow> error + coordinate" where
  "cube_coord cube nm =
     (case filter (\<lambda>c. name c = nm) (coords cube) of
        [c] \<Rightarrow> Inr c
      | _ \<Rightarrow> Inl CoordinateNotFoundError)"

definition cube_coord_dims :: "cube \<Rightarrow> string \<Rightarrow> error + nat option" where
  "cube_coord_dims cube nm =
     (case cube_coord cube nm of Inl e \<Rightarrow> Inl e | Inr c \<Rightarrow> Inr (data_dim c))"

text \<open>
  The setters of a coordinate. Assigning to \<open>coord.points\<close> raises unless the new points
  have the shape of the points that the coordinate has, and assigning to \<open>coord.bounds\<close>
  raises unless there is one pair of bounds for each point.
\<close>

definition set_points :: "coordinate \<Rightarrow> real list \<Rightarrow> error + coordinate" where
  "set_points crd pnts =
     (if length pnts \<noteq> length (points crd) then Inl PointsShapeError
      else Inr (crd\<lparr>points := pnts\<rparr>))"

definition set_bounds :: "coordinate \<Rightarrow> (real \<times> real) list \<Rightarrow> error + coordinate" where
  "set_bounds crd bnds =
     (if length bnds \<noteq> length (points crd) then Inl BoundsShapeError
      else Inr (crd\<lparr>bounds := Some bnds\<rparr>))"

text \<open>Python's \<open>s.find(sub)\<close>: the first position of \<open>sub\<close> in \<open>s\<close>, or \<open>-1\<close>.\<close>

fun find_from :: "string \<Rightarrow> string \<Rightarrow> nat \<Rightarrow> int" where
  "find_from sub [] k = (if sub = [] then int k else - 1)"
| "find_from sub (c # cs) k =
     (if take (length sub) (c # cs) = sub then int k else find_from sub cs (Suc k))"

definition str_find :: "string \<Rightarrow> string \<Rightarrow> int" where
  "str_find s sub = find_from sub s 0"

subsection \<open>\<open>Cube.collapsed\<close> and the aggregators\<close>

text \<open>
  \<open>Coord.collapsed\<close> of iris for a numeric coordinate: the collapsed coordinate is scalar,
  its bounds are the extremes of the bounds (of the points, when there are no bounds) and
  its point is the middle of the bounds.
\<close>

definition collapse_coordinate :: "coordinate \<Rightarrow> coordinate" where
  "collapse_coordinate c =
     (case (case bounds c of
              None \<Rightarrow> points c
            | Some bs \<Rightarrow> map fst bs @ map snd bs) of
        [] \<Rightarrow> c\<lparr>data_dim := None\<rparr>
      | x # xs \<Rightarrow>
          let lower = foldl min x xs;
              upper = foldl max x xs
          in c\<lparr>points := [(lower + upper) / 2], bounds := Some [(lower, upper)],
                data_dim := None\<rparr>)"

text \<open>The coordinates of a cube after dimension \<open>d\<close> is collapsed.\<close>

definition collapsed_coordinate :: "nat \<Rightarrow> coordinate \<Rightarrow> coordinate" where
  "collapsed_coordinate d c =
     (case data_dim c of
        None \<Rightarrow> c
      | Some k \<Rightarrow> if k = d then collapse_coordinate c
                  else if d < k then c\<lparr>data_dim := Some (k - 1)\<rparr>
                  else c)"

text \<open>
  \<open>cube.collapsed(coord, aggregator, **kwargs)\<close> over a coordinate that describes the data
  dimension \<open>d\<close>: iris takes the metadata of the new cube from the slice at position 0 of
  that dimension, which raises when the dimension is empty; it moves the dimension to the
  end, also in the keyword \<open>weights\<close> when it is given, calls the aggregator with
  \<open>axis = -1\<close>, and returns the new cube with the aggregated data. The input cube is not
  changed.
\<close>

definition collapsed ::
  "cube \<Rightarrow> string \<Rightarrow> (ndarray \<Rightarrow> int \<Rightarrow> ndarray option \<Rightarrow> error + ndarray) \<Rightarrow> ndarray option
     \<Rightarrow> error + cube" where
  "collapsed cube nm aggregator weights =
     (case cube_coord_dims cube nm of
        Inl e \<Rightarrow> Inl e
      | Inr None \<Rightarrow> Inl CoordinateCollapseError
      | Inr (Some d) \<Rightarrow>
          if shape (data cube) ! d = 0 then Inl IndexError
          else
            let dims = filter (\<lambda>k. k \<noteq> d) [0..<ndim (data cube)] @ [d];
                unrolled_data = np_transpose (data cube) dims;
                unrolled_weights = map_option (\<lambda>w. np_transpose w dims) weights
            in
            (case aggregator unrolled_data (- 1) unrolled_weights of
               Inl e \<Rightarrow> Inl e
             | Inr data_result \<Rightarrow>
                 Inr \<lparr>data = data_result, coords = map (collapsed_coordinate d) (coords cube)\<rparr>))"

text \<open>
  \<open>iris.analysis.MEAN\<close>, that is \<open>numpy.ma.average(data, axis, weights)\<close>: the sum of the
  products of values and weights along the axis, divided by the sum of the weights; without
  weights the arithmetic mean. A division by zero, which gives \<open>nan\<close> or \<open>inf\<close> in numpy,
  has no counterpart in the reals: statements about the mean assume a divisor other than 0.
\<close>

definition MEAN :: "ndarray \<Rightarrow> int \<Rightarrow> ndarray option \<Rightarrow> error + ndarray" where
  "MEAN a axis weights =
     (case normalize_axis_index axis (ndim a) of
        Inl e \<Rightarrow> Inl e
      | Inr k \<Rightarrow>
          let n = shape a ! k in
          (case weights of
             None \<Rightarrow>
               Inr (from_function (delete_axis k (shape a))
                      (\<lambda>idx. (\<Sum>b\<leftarrow>[0..<n]. item a (list_insert k b idx)) / real n))
           | Some w \<Rightarrow>
               if shape w \<noteq> shape a then Inl BroadcastError
               else
                 Inr (from_function (delete_axis k (shape a))
                        (\<lambda>idx. (\<Sum>b\<leftarrow>[0..<n]. item a (list_insert k b idx) * item w (list_insert k b idx))
                                 / (\<Sum>b\<leftarrow>[0..<n]. item w (list_insert k b idx))))))"

text \<open>
  \<open>iris.util.broadcast_to_shape(array, shape, (d,))\<close> for a one-dimensional array: the
  element at an index is the element of the array at position \<open>d\<close> of the index.
\<close>

definition broadcast_to_shape :: "real list \<Rightarrow> nat list \<Rightarrow> nat \<Rightarrow> error + ndarray" where
  "broadcast_to_shape array shp d =
     (if d < length shp \<and> length array = shp ! d
      then Inr (from_function shp (\<lambda>idx. array ! (idx ! d)))
      else Inl BroadcastError)"


subsection \<open>\<open>WeightedBlendAcrossWholeDimension\<close>\<close>

text \<open>
  Both plugins are configured with \<open>coord\<close>, the name of the coordinate to blend over. The
  function \<open>coord_adjust\<close>, when it is set, maps the points of a coordinate to the points of
  the collapsed coordinate; the conversion of its result to the type of the points is the
  identity on the reals.
\<close>

record plugin =
  coord :: string

record WeightedBlendAcrossWholeDimension = plugin +
  coord_adjust :: "(real list \<Rightarrow> real list) option"

text \<open>
  A call of \<open>process\<close> is described by three things: the caller's cube as it is after the
  call, the warnings issued, and the cube returned or the exception raised. The flag
  \<open>returns_input\<close> records the one case in which the cube returned is the caller's cube
  itself and not a new one.
\<close>

record process_result =
  input_cube :: cube
  warnings :: "string list"
  outcome :: "error + cube"
  returns_input :: bool

definition raise :: "cube \<Rightarrow> error \<Rightarrow> process_result" where
  "raise cube e = \<lparr>input_cube = cube, warnings = [], outcome = Inl e, returns_input = False\<rparr>"

text \<open>The loop over \<open>cube.coords()\<close> that looks for percentile coordinates.\<close>

definition find_percentile_coord :: "cube \<Rightarrow> coordinate option \<times> nat" where
  "find_percentile_coord cube =
     foldl (\<lambda>(perc_coord, perc_found) coord.
              if str_find (name coord) ''percentile'' \<ge> 0
              then (Some coord, perc_found + 1)
              else (perc_coord, perc_found))
       (None, 0) (coords cube)"

text \<open>
  The checks on the percentile coordinate. The first check of \<open>process\<close>, that its argument
  is a cube, cannot fail here: the type of the argument is \<open>cube\<close>. When the loop has counted
  one percentile coordinate, \<open>perc_coord\<close> is that coordinate.
\<close>

definition check_percentile_coord :: "cube \<Rightarrow> coordinate option \<Rightarrow> nat \<Rightarrow> error + unit" where
  "check_percentile_coord cube perc_coord perc_found =
     (if perc_found = 1 then
        (case perc_coord of
           None \<Rightarrow> Inr ()
         | Some perc_coord \<Rightarrow>
             (case cube_coord_dims cube (name perc_coord) of
                Inl e \<Rightarrow> Inl e
              | Inr perc_dim \<Rightarrow>
                  if perc_dim = None then Inl PercentileNotDimension
                  else if length (points perc_coord) < 2 then Inl PercentileTooFewPoints
                  else Inr ()))
      else if perc_found > 1 then Inl MultiplePercentileCoords
      else Inr ())"

text \<open>The check that the weights, when given, have the shape of the points of the coordinate.\<close>

definition check_weights :: "cube \<Rightarrow> string \<Rightarrow> real list option \<Rightarrow> error + unit" where
  "check_weights cube nm weights =
     (case weights of
        None \<Rightarrow> Inr ()
      | Some w \<Rightarrow>
          (case cube_coord cube nm of
             Inl e \<Rightarrow> Inl e
           | Inr c \<Rightarrow> if [length w] \<noteq> [length (points c)] then Inl WeightShapeMismatch
                      else Inr ()))"

text \<open>
  The blend with the percentile aggregator: equal weights when none are given, and
  \<open>cube.collapsed\<close> with \<open>PercentileBlendingAggregator.aggregate\<close>.
\<close>

definition percentile_blend ::
  "cube \<Rightarrow> string \<Rightarrow> coordinate \<Rightarrow> real list option \<Rightarrow> error + cube" where
  "percentile_blend cube nm perc_coord weights =
     (let percentiles = points perc_coord in
      case cube_coord_dims cube (name perc_coord) of
        Inl e \<Rightarrow> Inl e
      | Inr None \<Rightarrow> Inl UnpackError
      | Inr (Some perc_dim) \<Rightarrow>
          (case (case weights of
                   Some w \<Rightarrow> Inr w
                 | None \<Rightarrow>
                     (case cube_coord cube nm of
                        Inl e \<Rightarrow> Inl e
                      | Inr c \<Rightarrow>
                          let num = length (points c)
                          in Inr (map (\<lambda>w. w / real num) (replicate num 1)))) of
             Inl e \<Rightarrow> Inl e
           | Inr weights \<Rightarrow>
               collapsed cube nm
                 (\<lambda>data axis _. aggregate data axis percentiles weights (int perc_dim)) None))"

text \<open>The weighted average: the weights, when given, are broadcast to the shape of the cube.\<close>

definition mean_blend :: "cube \<Rightarrow> string \<Rightarrow> nat \<Rightarrow> real list option \<Rightarrow> error + cube" where
  "mean_blend cube nm coord_dim weights =
     (case (case weights of
              None \<Rightarrow> Inr None
            | Some w \<Rightarrow>
                (case broadcast_to_shape w (shape (data cube)) coord_dim of
                   Inl e \<Rightarrow> Inl e
                 | Inr weights_array \<Rightarrow> Inr (Some weights_array))) of
        Inl e \<Rightarrow> Inl e
      | Inr weights_array \<Rightarrow> collapsed cube nm MEAN weights_array)"

text \<open>
  The loop that adjusts the collapsed coordinates: for every coordinate of the result that
  has, in the input cube, the dimensions of the blend coordinate, the points become the
  adjusted points of the coordinate of that name in the input cube. The assignment goes
  through the setter of the coordinate, which raises when \<open>coord_adjust\<close> returns another
  number of points than the coordinate of the result has; the coordinates assigned before
  keep their new points. The coordinates of the result are visited by position. When the
  result is the input cube itself (\<open>returns_input\<close>), the assignment changes the input cube.
\<close>

fun adjust_coords ::
  "(real list \<Rightarrow> real list) \<Rightarrow> bool \<Rightarrow> nat option \<Rightarrow> cube \<Rightarrow> cube \<Rightarrow> nat list
     \<Rightarrow> cube \<times> (error + cube)" where
  "adjust_coords adjust same coord_dim cube result [] = (cube, Inr result)"
| "adjust_coords adjust same coord_dim cube result (k # ks) =
     (let crd = coords result ! k in
      case cube_coord_dims cube (name crd) of
        Inl e \<Rightarrow> (cube, Inl e)
      | Inr dims \<Rightarrow>
          if dims = coord_dim then
            (case cube_coord cube (name crd) of
               Inl e \<Rightarrow> (cube, Inl e)
             | Inr c \<Rightarrow>
                 (case set_points crd (adjust (points c)) of
                    Inl e \<Rightarrow> (cube, Inl e)
                  | Inr crd' \<Rightarrow>
                      let result' = result\<lparr>coords := (coords result)[k := crd']\<rparr>
                      in adjust_coords adjust same coord_dim (if same then result' else cube)
                           result' ks))
          else adjust_coords adjust same coord_dim cube result ks)"

definition process ::
  "WeightedBlendAcrossWholeDimension \<Rightarrow> cube \<Rightarrow> real list option \<Rightarrow> process_result" where
  "process self cube weights =
     (let (perc_coord, perc_found) = find_percentile_coord cube in
      case check_percentile_coord cube perc_coord perc_found of
        Inl e \<Rightarrow> raise cube e
      | Inr _ \<Rightarrow>
     (case check_weights cube (coord self) weights of
        Inl e \<Rightarrow> raise cube e
      | Inr _ \<Rightarrow>
     (case cube_coord_dims cube (coord self) of
        Inl e \<Rightarrow> raise cube e
      | Inr coord_dim \<Rightarrow>
          let (msgs, same, blended) =
                (case coord_dim of
                   None \<Rightarrow>
                     ([''Trying to blend across a scalar coordinate with only one value. Returning original cube''],
                      True, Inr cube)
                 | Some d \<Rightarrow>
                     (case perc_coord of
                        Some pc \<Rightarrow> ([], False, percentile_blend cube (coord self) pc weights)
                      | None \<Rightarrow> ([], False, mean_blend cube (coord self) d weights)))
          in
          (case blended of
             Inl e \<Rightarrow> \<lparr>input_cube = cube, warnings = msgs, outcome = Inl e, returns_input = False\<rparr>
           | Inr result \<Rightarrow>
               (case coord_adjust self of
                  None \<Rightarrow>
                    \<lparr>input_cube = cube, warnings = msgs, outcome = Inr result, returns_input = same\<rparr>
                | Some adjust \<Rightarrow>
                    let (cube', res) = adjust_coords adjust same coord_dim cube result
                                         [0..<length (coords result)]
                    in \<lparr>input_cube = cube', warnings = msgs, outcome = res,
                         returns_input = same\<rparr>)))))"

text \<open>
  Two notions used to state the properties of \<open>process\<close>: the coordinates of a cube whose
  name contains \<open>percentile\<close>, and the exceptions that the checks of \<open>process\<close> raise
  themselves, as opposed to those that come out of numpy or iris.
\<close>

definition percentile_coords :: "cube \<Rightarrow> coordinate list" where
  "percentile_coords cube = filter (\<lambda>c. str_find (name c) ''percentile'' \<ge> 0) (coords cube)"

definition raised_by_checks :: "error \<Rightarrow> bool" where
  "raised_by_checks e \<longleftrightarrow>
     e = NotACube \<or> is_PercentileDimensionError e \<or> e = WeightShapeMismatch"


subsection \<open>\<open>TriangularWeightedBlendAcrossAdjacentPoints\<close>\<close>

record TriangularWeightedBlendAcrossAdjacentPoints = plugin +
  width :: real
  parameter_units :: string

text \<open>
  \<open>Coord.guess_bounds()\<close> of iris with the bound position 0.5: it raises when the coordinate
  has bounds already or has fewer than two points; otherwise each point gets the bounds
  half a step below and above it, the step at the two ends being the nearest one.
\<close>

definition guess_bounds :: "coordinate \<Rightarrow> error + coordinate" where
  "guess_bounds c =
     (if bounds c \<noteq> None then Inl GuessBoundsError
      else if length (points c) < 2 then Inl GuessBoundsError
      else
        let p = points c;
            diffs = map (\<lambda>k. p ! Suc k - p ! k) [0..<length p - 1];
            diffs = hd diffs # diffs @ [last diffs];
            min_bounds = map (\<lambda>k. p ! k - diffs ! k * (1 / 2)) [0..<length p];
            max_bounds = map (\<lambda>k. p ! k + diffs ! Suc k * (1 / 2)) [0..<length p]
        in Inr (c\<lparr>bounds := Some (zip min_bounds max_bounds)\<rparr>))"

text \<open>
  The loop \<open>for coord in coords_to_correct: cube.coord(coord).guess_bounds()\<close>. It assigns
  the bounds to the coordinates of the cube that \<open>process\<close> was called with; the cube
  returned here is that cube after the loop, also when the loop raises.
\<close>

fun add_bounds :: "cube \<Rightarrow> string list \<Rightarrow> cube \<times> (error + unit)" where
  "add_bounds cube [] = (cube, Inr ())"
| "add_bounds cube (nm # nms) =
     (case cube_coord cube nm of
        Inl e \<Rightarrow> (cube, Inl e)
      | Inr c \<Rightarrow>
          (case guess_bounds c of
             Inl e \<Rightarrow> (cube, Inl e)
           | Inr c' \<Rightarrow>
               add_bounds (cube\<lparr>coords := map (\<lambda>x. if name x = nm then c' else x) (coords cube)\<rparr>)
                 nms))"

text \<open>
  \<open>cube.slices_over(coord)\<close>: one cube for each position of the dimension of the
  coordinate, in which the coordinates of that dimension are scalar; the cube itself when
  the coordinate describes no dimension.
\<close>

definition slice_coordinate :: "nat \<Rightarrow> nat \<Rightarrow> coordinate \<Rightarrow> coordinate" where
  "slice_coordinate d k c =
     (case data_dim c of
        None \<Rightarrow> c
      | Some j \<Rightarrow>
          if j = d
          then c\<lparr>points := [points c ! k], bounds := map_option (\<lambda>bs. [bs ! k]) (bounds c),
                 data_dim := None\<rparr>
          else if d < j then c\<lparr>data_dim := Some (j - 1)\<rparr>
          else c)"

definition slice_cube :: "cube \<Rightarrow> nat \<Rightarrow> nat \<Rightarrow> cube" where
  "slice_cube cube d k =
     \<lparr>data = from_function (delete_axis d (shape (data cube)))
               (\<lambda>idx. item (data cube) (list_insert d k idx)),
      coords = map (slice_coordinate d k) (coords cube)\<rparr>"

definition slices_over :: "cube \<Rightarrow> string \<Rightarrow> error + cube list" where
  "slices_over cube nm =
     (case cube_coord_dims cube nm of
        Inl e \<Rightarrow> Inl e
      | Inr None \<Rightarrow> Inr [cube]
      | Inr (Some d) \<Rightarrow> Inr (map (slice_cube cube d) [0..<shape (data cube) ! d]))"

text \<open>
  \<open>correct_collapsed_coordinates(orig_cube, new_cube, coords_to_correct)\<close> assigns to the
  coordinates of \<open>new_cube\<close>, through their setters; the cube returned here is \<open>new_cube\<close>
  after the assignments, also when a lookup or a setter raises.
\<close>

fun correct_collapsed_coordinates ::
  "cube \<Rightarrow> cube \<Rightarrow> string list \<Rightarrow> cube \<times> (error + unit)" where
  "correct_collapsed_coordinates orig_cube new_cube [] = (new_cube, Inr ())"
| "correct_collapsed_coordinates orig_cube new_cube (nm # nms) =
     (case cube_coord new_cube nm of
        Inl e \<Rightarrow> (new_cube, Inl e)
      | Inr new_coord \<Rightarrow>
          (case cube_coord orig_cube nm of
             Inl e \<Rightarrow> (new_cube, Inl e)
           | Inr old_coord \<Rightarrow>
               (case set_points new_coord (points old_coord) of
                  Inl e \<Rightarrow> (new_cube, Inl e)
                | Inr new_coord \<Rightarrow>
                    let new_cube = new_cube\<lparr>coords := map (\<lambda>x. if name x = nm then new_coord else x)
                                                          (coords new_cube)\<rparr>
                    in
                    (case bounds old_coord of
                       None \<Rightarrow> correct_collapsed_coordinates orig_cube new_cube nms
                     | Some bnds \<Rightarrow>
                         (case set_bounds new_coord bnds of
                            Inl e \<Rightarrow> (new_cube, Inl e)
                          | Inr new_coord \<Rightarrow>
                              correct_collapsed_coordinates orig_cube
                                (new_cube\<lparr>coords := map (\<lambda>x. if name x = nm then new_coord else x)
                                                         (coords new_cube)\<rparr>)
                                nms)))))"

text \<open>
  Two collaborators are code of the package outside this module. They are parameters of the
  model: \<open>WeightsPlugin\<close> stands for
  \<open>ChooseDefaultWeightsTriangular(width, units=parameter_units).process\<close>, which maps the
  cube, the name of the coordinate and a point to a vector of weights, and
  \<open>concatenate_cubes\<close> joins the blended cubes. Both are taken to leave their arguments
  unchanged.
\<close>

type_synonym weights_plugin = "real \<Rightarrow> string \<Rightarrow> cube \<Rightarrow> string \<Rightarrow> real \<Rightarrow> error + real list"

text \<open>
  The loop over the slices. Its state is the caller's cube, the warnings and the blended
  cubes so far. When \<open>BlendingPlugin.process\<close> returns the caller's cube itself, the
  correction of the coordinates assigns to the caller's cube.
\<close>

fun blend_slices ::
  "(cube \<Rightarrow> string \<Rightarrow> real \<Rightarrow> error + real list) \<Rightarrow> string \<Rightarrow> string list \<Rightarrow> cube \<Rightarrow> string list
     \<Rightarrow> cube list \<Rightarrow> cube list \<Rightarrow> cube \<times> string list \<times> (error + cube list)" where
  "blend_slices WeightsPlugin_process nm coords_to_correct cube msgs [] result =
     (cube, msgs, Inr result)"
| "blend_slices WeightsPlugin_process nm coords_to_correct cube msgs (cube_slice # slices) result =
     (case cube_coord cube_slice nm of
        Inl e \<Rightarrow> (cube, msgs, Inl e)
      | Inr c \<Rightarrow>
          if points c = [] then (cube, msgs, Inl IndexError)
          else
            let point = points c ! 0 in
            (case WeightsPlugin_process cube nm point of
               Inl e \<Rightarrow> (cube, msgs, Inl e)
             | Inr weights \<Rightarrow>
                 let r = process \<lparr>coord = nm, coord_adjust = None\<rparr> cube (Some weights);
                     cube = input_cube r;
                     msgs = msgs @ warnings r
                 in
                 (case outcome r of
                    Inl e \<Rightarrow> (cube, msgs, Inl e)
                  | Inr blended_cube \<Rightarrow>
                      let (blended_cube, corrected) =
                            correct_collapsed_coordinates cube_slice blended_cube coords_to_correct;
                          cube = (if returns_input r then blended_cube else cube)
                      in
                      (case corrected of
                         Inl e \<Rightarrow> (cube, msgs, Inl e)
                       | Inr _ \<Rightarrow>
                           blend_slices WeightsPlugin_process nm coords_to_correct cube msgs slices
                             (result @ [blended_cube])))))"

definition triangular_process ::
  "weights_plugin \<Rightarrow> (cube list \<Rightarrow> error + cube) \<Rightarrow> TriangularWeightedBlendAcrossAdjacentPoints
     \<Rightarrow> cube \<Rightarrow> process_result" where
  "triangular_process WeightsPlugin concatenate_cubes self cube =
     (case cube_coord_dims cube (coord self) of
        Inl e \<Rightarrow> raise cube e
      | Inr dimension_to_collapse \<Rightarrow>
          let coords_to_correct =
                map name (filter (\<lambda>c. data_dim c = dimension_to_collapse) (coords cube));
              (cube, guessed) = add_bounds cube coords_to_correct
          in
          (case guessed of
             Inl e \<Rightarrow> raise cube e
           | Inr _ \<Rightarrow>
               (case slices_over cube (coord self) of
                  Inl e \<Rightarrow> raise cube e
                | Inr slices \<Rightarrow>
                    let (cube, msgs, blended) =
                          blend_slices (WeightsPlugin (width self) (parameter_units self))
                            (coord self) coords_to_correct cube [] slices []
                    in
                    (case blended of
                       Inl e \<Rightarrow>
                         \<lparr>input_cube = cube, warnings = msgs, outcome = Inl e, returns_input = False\<rparr>
                     | Inr result \<Rightarrow>
                         \<lparr>input_cube = cube, warnings = msgs, outcome = concatenate_cubes result,
                          returns_input = False\<rparr>))))"

text \<open>
  The one change that \<open>process\<close> of this plugin makes to the cube it is called with: the
  data and the list of coordinates are as before, except that a coordinate may have been
  given the bounds that \<open>guess_bounds\<close> computes for it. Such a coordinate had no bounds,
  and its name, points and dimension are as before.
\<close>

definition adds_guessed_bounds :: "cube \<Rightarrow> cube \<Rightarrow> bool" where
  "adds_guessed_bounds cube cube' \<longleftrightarrow>
     data cube' = data cube
       \<and> list_all2 (\<lambda>c c'. c' = c \<or> guess_bounds c = Inr c') (coords cube) (coords cube')"

subsection \<open>The two collaborators, for running the model\<close>

text \<open>
  Modelled from the spec: \<open>ChooseDefaultWeightsTriangular.process\<close> of \<open>improver.weights\<close>
  is not part of the sources. The spec says that, given a field, a coordinate name and a
  centre point, it returns a weight vector of the length of that coordinate, from a
  triangular kernel of the configured width. Here the kernel falls linearly from 1 at the
  centre to 0 at the distance \<open>width\<close>, the weights are normalised to the sum 1, and the
  units of the width are those of the coordinate.
\<close>

definition ChooseDefaultWeightsTriangular_process :: weights_plugin where
  "ChooseDefaultWeightsTriangular_process w units cube nm point =
     (case cube_coord cube nm of
        Inl e \<Rightarrow> Inl e
      | Inr c \<Rightarrow>
          let weights = map (\<lambda>x. max 0 (1 - \<bar>x - point\<bar> / w)) (points c)
          in Inr (map (\<lambda>w. w / sum_list weights) weights))"

text \<open>
  Modelled from the spec: \<open>concatenate_cubes\<close> of \<open>improver.utilities.cube_manipulation\<close> is
  not part of the sources. The spec says that it concatenates a sequence of same-shaped
  fields back into one along a dimension. Here the data are stacked along a new leading
  dimension; a scalar coordinate that differs between the cubes becomes the coordinate of
  that dimension, and every other coordinate is that of the first cube.
\<close>

definition join_coordinate :: "coordinate list \<Rightarrow> coordinate" where
  "join_coordinate cs =
     (let c = hd cs in
      case data_dim c of
        Some d \<Rightarrow> c\<lparr>data_dim := Some (Suc d)\<rparr>
      | None \<Rightarrow>
          if list_all (\<lambda>x. x = c) cs then c
          else c\<lparr>points := concat (map points cs),
                 bounds := (if list_all (\<lambda>x. bounds x \<noteq> None) cs
                            then Some (concat (map (\<lambda>x. the (bounds x)) cs)) else None),
                 data_dim := Some 0\<rparr>)"

definition concatenate_cubes :: "cube list \<Rightarrow> error + cube" where
  "concatenate_cubes cubes =
     (case cubes of
        [] \<Rightarrow> Inl CollaboratorError
      | c # _ \<Rightarrow>
          if list_all (\<lambda>x. shape (data x) = shape (data c)
                            \<and> map name (coords x) = map name (coords c)) cubes
          then Inr \<lparr>data = \<lparr>shape = length cubes # shape (data c),
                              flat = concat (map (\<lambda>x. flat (data x)) cubes)\<rparr>,
                     coords = map (\<lambda>k. join_coordinate (map (\<lambda>x. coords x ! k) cubes))
                                [0..<length (coords c)]\<rparr>
          else Inl CollaboratorError)"


section \<open>Properties\<close>

subsection \<open>Interpolation over sorted sample points\<close>

lemma interp_scan_knot:
  "sorted_wrt (<) (map fst ps) \<Longrightarrow> k < length ps \<Longrightarrow> interp_scan (fst (ps ! k)) ps = snd (ps ! k)"
proof (induction "fst (ps ! k)" ps arbitrary: k rule: interp_scan.induct)
  case 1
  then show ?case by simp
next
  case (2 a fa)
  then show ?case by simp
next
  case (3 a fa b fb ps)
  show ?case
  proof (cases k)
    case 0
    with 3 show ?thesis by simp
  next
    case (Suc m)
    with "3.prems" have ge: "\<not> fst (((a, fa) # (b, fb) # ps) ! k) < b"
      by (cases m) (auto simp: not_less less_imp_le)
    from Suc "3.prems" have "interp_scan (fst (((b, fb) # ps) ! m)) ((b, fb) # ps) = snd (((b, fb) # ps) ! m)"
      using "3.hyps"[of m] ge by simp
    with Suc ge show ?thesis by simp
  qed
qed









subsection \<open>\<open>blend_percentiles\<close>: one slice, range and monotonicity\<close>

lemma add_to_zeros: "map2 (+) (replicate (length ps) (0::real)) ps = ps"
  by (induction ps) auto

lemma hd_le_nth_le_last:
  "sorted (xs::real list) \<Longrightarrow> k < length xs \<Longrightarrow> hd xs \<le> xs ! k \<and> xs ! k \<le> last xs"
proof -
  assume s: "sorted xs" and k: "k < length xs"
  then have ne: "xs \<noteq> []" by auto
  have "xs ! 0 \<le> xs ! k" using s k by (intro sorted_nth_mono) auto
  moreover have "xs ! k \<le> xs ! (length xs - 1)" using s k by (intro sorted_nth_mono) auto
  ultimately show ?thesis using ne by (simp add: hd_conv_nth last_conv_nth)
qed

lemma interp_point_knot:
  assumes "sorted_wrt (<) xp" "length fp = length xp" "k < length xp"
  shows "interp_point xp fp (xp ! k) = fp ! k"
proof -
  have s: "sorted xp" using assms(1) by (rule strict_sorted_imp_sorted)
  have "map fst (zip xp fp) = xp" using assms by simp
  then have "interp_scan (fst (zip xp fp ! k)) (zip xp fp) = snd (zip xp fp ! k)"
    using interp_scan_knot[of "zip xp fp" k] assms by simp
  then have "interp_scan (xp ! k) (zip xp fp) = fp ! k" using assms by simp
  then show ?thesis using hd_le_nth_le_last[OF s assms(3)] by (simp add: interp_point_def)
qed

lemma np_interp_knots:
  assumes "sorted_wrt (<) xp" "length fp = length xp" "xp \<noteq> []"
  shows "np_interp xp xp fp = Inr fp"
proof -
  have "map (interp_point xp fp) xp = fp"
    using assms by (intro nth_equalityI) (auto simp: interp_point_knot)
  then show ?thesis using assms by (simp add: np_interp_def)
qed

text \<open>
  Claim C2. A single slice whose row of values is non-decreasing, blended against strictly
  increasing percentile levels of the same length with the weight vector \<open>[1.0]\<close>, comes
  back unchanged. The row is not empty: \<open>np.interp\<close> raises on an empty array of sample
  points, and the percentile coordinate has at least two points.
\<close>
theorem blend_percentiles_single_slice:
  assumes "row \<noteq> []" "sorted row" "sorted_wrt (<) percentiles" "length percentiles = length row"
  shows "blend_percentiles [row] percentiles [1] = Inr row"
proof -
  have c: "combined_rows [row] percentiles [1] [0..<length [row]] = Inr [percentiles]"
    by (simp add: add_to_zeros)
  have sp: "sort percentiles = percentiles"
    using assms(3) by (simp add: sorted_sort_id strict_sorted_imp_sorted)
  have sr: "sort row = row" using assms(2) by (simp add: sorted_sort_id)
  have "np_interp percentiles percentiles row = Inr row"
    using assms by (intro np_interp_knots) auto
  then show ?thesis using c sp sr by (simp add: blend_percentiles_def)
qed

text \<open>The values \<open>[10, 20, 30]\<close> at the percentiles \<open>[25, 50, 75]\<close>.\<close>
theorem blend_percentiles_single_slice_witness:
  "[10, 20, 30::real] \<noteq> [] \<and> sorted [10, 20, 30::real] \<and> sorted_wrt (<) [25, 50, 75::real]
     \<and> length [25, 50, 75::real] = length [10, 20, 30::real]
     \<and> blend_percentiles [[10, 20, 30]] [25, 50, 75] [1] = Inr [10, 20, 30]"
  using blend_percentiles_single_slice [of "[10, 20, 30]" "[25, 50, 75]"] by simp





subsection \<open>\<open>blend_percentiles\<close>: identical slices\<close>
















subsection \<open>Lists of axes\<close>

lemma upt_split3: "a < n \<Longrightarrow> [0..<n] = [0..<a] @ a # [Suc a..<n]"
  by (metis le_add1 less_imp_add_positive upt_add_eq_append upt_conv_Cons add_0 less_or_eq_imp_le)

lemma filter_upt_one:
  assumes "a < n"
  shows "filter (\<lambda>k. k \<noteq> a) [0..<n] = [0..<a] @ [Suc a..<n]"
proof -
  have "[0..<n] = [0..<a] @ a # [Suc a..<n]" using assms by (rule upt_split3)
  moreover have "filter (\<lambda>k. k \<noteq> a) [0..<a] = [0..<a]" by (intro filter_True) auto
  moreover have "filter (\<lambda>k. k \<noteq> a) [Suc a..<n] = [Suc a..<n]" by (intro filter_True) auto
  ultimately show ?thesis by simp
qed

lemma map_nth_upt: "j \<le> length xs \<Longrightarrow> map ((!) xs) [i..<j] = drop i (take j xs)"
  by (intro nth_equalityI) (auto simp: min_def)

lemma map_nth_skip:
  assumes "a < length xs"
  shows "map ((!) xs) ([0..<a] @ [Suc a..<length xs]) = delete_axis a xs"
proof -
  have "map ((!) xs) [0..<a] = take a xs"
    using assms by (simp add: map_nth_upt)
  moreover have "map ((!) xs) [Suc a..<length xs] = drop (Suc a) xs"
    by (simp add: map_nth_upt)
  ultimately show ?thesis by (simp add: delete_axis_def)
qed

lemma delete_axis_map: "delete_axis p (map f ks) = map f (delete_axis p ks)"
  by (simp add: delete_axis_def take_map drop_map)

lemma filter_distinct_nth:
  assumes "distinct ks" "p < length ks"
  shows "filter (\<lambda>k. k \<noteq> ks ! p) ks = delete_axis p ks"
proof -
  have split: "ks = take p ks @ ks ! p # drop (Suc p) ks"
    using assms(2) by (rule id_take_nth_drop)
  then have d: "distinct (take p ks @ ks ! p # drop (Suc p) ks)" using assms(1) by simp
  have "filter (\<lambda>k. k \<noteq> ks ! p) (take p ks) = take p ks"
    using d by (intro filter_True) auto
  moreover have "filter (\<lambda>k. k \<noteq> ks ! p) (drop (Suc p) ks) = drop (Suc p) ks"
    using d by (intro filter_True) auto
  ultimately have "filter (\<lambda>k. k \<noteq> ks ! p) (take p ks @ ks ! p # drop (Suc p) ks)
                     = take p ks @ drop (Suc p) ks"
    by simp
  then show ?thesis using split by (simp add: delete_axis_def)
qed

text \<open>The position that axis \<open>c\<close> takes once axis \<open>a\<close> is gone.\<close>

lemma skip_nth:
  assumes "a \<noteq> c" "a < n" "c < n"
  shows "([0..<a] @ [Suc a..<n]) ! (if a < c then c - 1 else c) = c"
    and "(if a < c then c - 1 else c) < length ([0..<a] @ [Suc a..<n])"
  using assms by (auto simp: nth_append)

lemma rest_axes:
  assumes "a \<noteq> c" "a < length xs" "c < length xs"
  shows "map ((!) xs) (filter (\<lambda>k. k \<notin> set [c, a]) [0..<length xs])
           = delete_axis (if a < c then c - 1 else c) (delete_axis a xs)"
proof -
  let ?ks = "[0..<a] @ [Suc a..<length xs]" and ?p = "if a < c then c - 1 else c"
  have d: "distinct ?ks" by auto
  have "filter (\<lambda>k. k \<notin> set [c, a]) [0..<length xs]
          = filter (\<lambda>k. k \<noteq> c) (filter (\<lambda>k. k \<noteq> a) [0..<length xs])"
    by (simp add: conj_commute)
  also have "\<dots> = filter (\<lambda>k. k \<noteq> c) ?ks"
    using assms(2) by (simp only: filter_upt_one)
  also have "\<dots> = filter (\<lambda>k. k \<noteq> ?ks ! ?p) ?ks"
    using skip_nth(1)[OF assms(1) assms(2) assms(3)] by simp
  also have "\<dots> = delete_axis ?p ?ks"
    using d skip_nth(2)[OF assms(1) assms(2) assms(3)] by (rule filter_distinct_nth)
  finally show ?thesis
    using assms(2) by (simp only: delete_axis_map[symmetric] map_nth_skip)
qed

lemma delete_axis_nth:
  assumes "a \<noteq> c" "a < length xs" "c < length xs"
  shows "delete_axis a xs ! (if a < c then c - 1 else c) = xs ! c"
    and "(if a < c then c - 1 else c) < length (delete_axis a xs)"
  using assms by (auto simp: delete_axis_def nth_append min_def)

lemma list_insert_delete_axis:
  "p < length xs \<Longrightarrow> list_insert p (xs ! p) (delete_axis p xs) = xs"
  by (simp add: list_insert_def delete_axis_def min_def id_take_nth_drop[symmetric])

lemma length_delete_axis: "k < length xs \<Longrightarrow> length (delete_axis k xs) = length xs - 1"
  by (auto simp: delete_axis_def)


subsection \<open>Row-major indexing\<close>

lemma ravel_less: "list_all2 (<) idx shp \<Longrightarrow> ravel shp idx < prod_list shp"
proof (induction idx shp rule: list_all2_induct)
  case Nil
  then show ?case by simp
next
  case (Cons i "is" n ns)
  have "i * prod_list ns + ravel ns is < i * prod_list ns + prod_list ns"
    using Cons.IH by simp
  also have "\<dots> = Suc i * prod_list ns" by simp
  also have "\<dots> \<le> n * prod_list ns" using Cons.hyps(1) by (intro mult_le_mono1) simp
  finally show ?case by simp
qed

lemma unravel_ravel: "list_all2 (<) idx shp \<Longrightarrow> unravel shp (ravel shp idx) = idx"
proof (induction idx shp rule: list_all2_induct)
  case Nil
  then show ?case by simp
next
  case (Cons i "is" n ns)
  have r: "ravel ns is < prod_list ns" using Cons.hyps(2) by (rule ravel_less)
  then show ?case using Cons.IH by simp
qed

lemma item_from_function:
  assumes "valid_index shp idx"
  shows "item (from_function shp f) idx = f idx"
proof -
  have "ravel shp idx < prod_list shp" using assms by (simp add: valid_index_def ravel_less)
  then show ?thesis
    using assms by (simp add: item_def from_function_def valid_index_def unravel_ravel)
qed

lemma wf_from_function: "wf_array (from_function shp f)"
  by (simp add: wf_array_def from_function_def)

lemma shape_from_function: "shape (from_function shp f) = shp"
  by (simp add: from_function_def)

subsection \<open>Transposition\<close>

lemma position_nth: "d \<in> set order \<Longrightarrow> position d order < length order \<and> order ! position d order = d"
  by (induction order) auto

lemma shape_np_transpose: "shape (np_transpose a order) = map ((!) (shape a)) order"
  by (simp add: np_transpose_def shape_from_function)

lemma wf_np_transpose: "wf_array (np_transpose a order)"
  by (simp add: np_transpose_def wf_from_function)

text \<open>
  The element of the transposed array at \<open>idx\<close> is the element of the array at any index
  \<open>j\<close> that the order maps to \<open>idx\<close>.
\<close>

lemma item_np_transpose:
  assumes "valid_index (map ((!) (shape a)) order) idx" "length j = ndim a"
    and "\<forall>d<ndim a. d \<in> set order" "map ((!) j) order = idx"
  shows "item (np_transpose a order) idx = item a j"
proof -
  have "map (\<lambda>d. idx ! position d order) [0..<ndim a] = j"
  proof (intro nth_equalityI)
    show "length (map (\<lambda>d. idx ! position d order) [0..<ndim a]) = length j"
      using assms(2) by simp
  next
    fix d assume "d < length (map (\<lambda>d. idx ! position d order) [0..<ndim a])"
    then have d: "d < ndim a" by simp
    then have p: "position d order < length order" "order ! position d order = d"
      using assms(3) position_nth by auto
    have "idx ! position d order = j ! (order ! position d order)"
      using p(1) assms(4) by (metis nth_map)
    then show "map (\<lambda>d. idx ! position d order) [0..<ndim a] ! d = j ! d"
      using d p(2) by simp
  qed
  then show ?thesis using assms(1) by (simp add: np_transpose_def item_from_function)
qed

subsection \<open>The two calls of \<open>np.moveaxis\<close>\<close>

lemma normalize_nat: "k < nd \<Longrightarrow> normalize_axis_index (int k) nd = Inr k"
  by (simp add: normalize_axis_index_def)

lemma np_moveaxis_front:
  assumes "a \<noteq> c" "a < ndim d" "c < ndim d"
  shows "np_moveaxis d [int c, int a] [1, 0]
           = Inr (np_transpose d (a # c # filter (\<lambda>k. k \<notin> set [c, a]) [0..<ndim d]))"
proof -
  have nd: "2 \<le> ndim d" using assms by linarith
  have src: "normalize_axis_tuple [int c, int a] (ndim d) = Inr [c, a]"
    using assms by (simp add: normalize_axis_tuple_def normalize_nat)
  have "normalize_axis_index 1 (ndim d) = Inr 1" "normalize_axis_index 0 (ndim d) = Inr 0"
    using nd by (auto simp: normalize_axis_index_def)
  then have dst: "normalize_axis_tuple [1, 0] (ndim d) = Inr [1, 0]"
    by (simp add: normalize_axis_tuple_def)
  show ?thesis
    unfolding np_moveaxis_def src dst by (simp add: list_insert_def)
qed

lemma np_moveaxis_back:
  assumes "p < ndim r"
  shows "np_moveaxis r [0] [int p] = Inr (np_transpose r (list_insert p 0 [1..<ndim r]))"
proof -
  have src: "normalize_axis_tuple [0] (ndim r) = Inr [0]"
    using assms by (simp add: normalize_axis_tuple_def normalize_axis_index_def)
  have dst: "normalize_axis_tuple [int p] (ndim r) = Inr [p]"
    using assms by (simp add: normalize_axis_tuple_def normalize_nat)
  have "filter (\<lambda>k. k \<noteq> 0) [0..<ndim r] = [0..<0] @ [Suc 0..<ndim r]"
    using assms by (intro filter_upt_one) simp
  then have "filter (\<lambda>k. k \<notin> set [0]) [0..<ndim r] = [1..<ndim r]" by simp
  then show ?thesis
    unfolding np_moveaxis_def src dst by simp
qed

lemma map_nth_list_insert:
  assumes "p \<le> length S"
  shows "map ((!) (x # S)) (list_insert p 0 [1..<Suc (length S)]) = list_insert p x S"
proof -
  have "map ((!) (x # S)) [1..<length (x # S)] = drop 1 (take (length (x # S)) (x # S))"
    by (intro map_nth_upt) simp
  then have "map ((!) (x # S)) [1..<Suc (length S)] = S"
    by (simp del: upt_Suc)
  moreover have "map ((!) (x # S)) (list_insert p 0 [1..<Suc (length S)])
      = list_insert p x (map ((!) (x # S)) [1..<Suc (length S)])"
    by (simp add: list_insert_def take_map drop_map)
  ultimately show ?thesis by simp
qed

subsection \<open>When \<open>blend_percentiles\<close> returns\<close>

lemma length_np_interp: "np_interp x xp fp = Inr r \<Longrightarrow> length r = length x"
  by (auto simp: np_interp_def split: if_splits)

lemma accumulate_row_returns:
  assumes "\<forall>row\<in>set pv. length row = length ps" "ps \<noteq> []" "i < length pv"
  shows "set js \<subseteq> {..<length pv} \<Longrightarrow> set js \<subseteq> {..<length ws} \<Longrightarrow> length acc = length ps \<Longrightarrow>
     \<exists>acc'. accumulate_row pv ps ws i js acc = Inr acc' \<and> length acc' = length ps"
proof (induction js arbitrary: acc)
  case Nil
  then show ?case by simp
next
  case (Cons j js)
  have j: "j < length pv" "j < length ws" using Cons.prems by auto
  have li: "length (pv ! i) = length ps" and lj: "length (pv ! j) = length ps"
    using assms(1,3) j(1) by auto
  have nej: "pv ! j \<noteq> []" using lj assms(2) by auto
  have "\<exists>rc. (if i = j then Inr ps else np_interp (pv ! i) (pv ! j) ps) = Inr rc
           \<and> length rc = length ps"
    using li lj nej by (simp add: np_interp_def)
  then obtain rc where rc: "(if i = j then Inr ps else np_interp (pv ! i) (pv ! j) ps) = Inr rc"
    and lrc: "length rc = length ps" by blast
  let ?acc = "map2 (+) acc (map (\<lambda>v. v * ws ! j) rc)"
  have "accumulate_row pv ps ws i (j # js) acc = accumulate_row pv ps ws i js ?acc"
    using j(2) lrc Cons.prems(3) by (simp only: accumulate_row.simps rc) simp
  moreover have "\<exists>acc'. accumulate_row pv ps ws i js ?acc = Inr acc' \<and> length acc' = length ps"
    using Cons.prems lrc by (intro Cons.IH) auto
  ultimately show ?case by simp
qed

lemma combined_rows_returns:
  assumes "\<forall>row\<in>set pv. length row = length ps" "ps \<noteq> []" "length pv \<le> length ws"
  shows "set is \<subseteq> {..<length pv} \<Longrightarrow>
     \<exists>rows. combined_rows pv ps ws is = Inr rows \<and> length rows = length is
        \<and> (\<forall>row\<in>set rows. length row = length ps)"
proof (induction "is")
  case Nil
  then show ?case by simp
next
  case (Cons i "is")
  have i: "i < length pv" using Cons.prems by simp
  have "\<exists>acc'. accumulate_row pv ps ws i [0..<length pv] (replicate (length ps) 0) = Inr acc'
          \<and> length acc' = length ps"
    using assms(3) by (intro accumulate_row_returns[OF assms(1,2) i]) auto
  then obtain row where row:
    "accumulate_row pv ps ws i [0..<length pv] (replicate (length ps) 0) = Inr row"
    "length row = length ps" by blast
  obtain rows where rows: "combined_rows pv ps ws is = Inr rows" "length rows = length is"
    "\<forall>row\<in>set rows. length row = length ps"
    using Cons by auto
  show ?case using row rows by simp
qed

lemma length_concat_uniform:
  "\<forall>row\<in>set xss. length row = n \<Longrightarrow> length (concat xss) = length xss * n"
  by (induction xss) auto

lemma blend_percentiles_returns:
  assumes "perc_values \<noteq> []" "\<forall>row\<in>set perc_values. length row = length percentiles"
    and "percentiles \<noteq> []" "length perc_values \<le> length weights"
  shows "\<exists>v. blend_percentiles perc_values percentiles weights = Inr v
           \<and> length v = length percentiles"
proof -
  have "set [0..<length perc_values] \<subseteq> {..<length perc_values}" by auto
  then have "\<exists>rows. combined_rows perc_values percentiles weights [0..<length perc_values]
                = Inr rows \<and> length rows = length [0..<length perc_values]
              \<and> (\<forall>row\<in>set rows. length row = length percentiles)"
    by (rule combined_rows_returns[OF assms(2,3,4)])
  then obtain rows where rows:
    "combined_rows perc_values percentiles weights [0..<length perc_values] = Inr rows"
    "length rows = length perc_values" "\<forall>row\<in>set rows. length row = length percentiles"
    by auto
  have l1: "length (concat rows) = length perc_values * length percentiles"
    using length_concat_uniform[of rows "length percentiles"] rows(2,3) by simp
  have l2: "length (concat perc_values) = length perc_values * length percentiles"
    using length_concat_uniform[of perc_values "length percentiles"] assms(2) by simp
  have "0 < length perc_values * length percentiles" using assms(1,3) by simp
  then have ne: "sort (concat rows) \<noteq> []" using l1 by (metis length_sort less_nat_zero_code list.size(3))
  have "np_interp percentiles (sort (concat rows)) (sort (concat perc_values))
          = Inr (map (interp_point (sort (concat rows)) (sort (concat perc_values))) percentiles)"
    using ne l1 l2 by (simp add: np_interp_def)
  then show ?thesis using rows(1) by (simp add: blend_percentiles_def)
qed

subsection \<open>The loop over the grid points\<close>

lemma column_position_inj:
  fixes l l' i i' m :: nat
  assumes "i < m" "i' < m" "l * m + i = l' * m + i'"
  shows "l = l' \<and> i = i'"
proof -
  have "(l * m + i) div m = l" using assms(1) by simp
  moreover have "(l' * m + i') div m = l'" using assms(2) by simp
  ultimately have "l = l'" using assms(3) by metis
  then show ?thesis using assms(3) by simp
qed

lemma column_position_less:
  fixes l i n m :: nat
  assumes "l < n" "i < m"
  shows "l * m + i < n * m"
proof -
  have "l * m + i < l * m + m" using assms by simp
  also have "\<dots> = Suc l * m" by simp
  also have "\<dots> \<le> n * m" using assms(1) by (intro mult_le_mono1) simp
  finally show ?thesis .
qed

lemma fold_column:
  assumes "i < m" "k \<le> n" "length f = n * m"
  shows "length (foldl (\<lambda>f l. f[l * m + i := v ! l]) f [0..<k]) = n * m
     \<and> (\<forall>l<n. \<forall>i'<m. foldl (\<lambda>f l. f[l * m + i := v ! l]) f [0..<k] ! (l * m + i')
            = (if i' = i \<and> l < k then v ! l else f ! (l * m + i')))"
  using assms(2)
proof (induction k)
  case 0
  then show ?case using assms(3) by simp
next
  case (Suc k)
  let ?F = "foldl (\<lambda>f l. f[l * m + i := v ! l]) f [0..<k]"
  have IH: "length ?F = n * m"
    "\<forall>l<n. \<forall>i'<m. ?F ! (l * m + i') = (if i' = i \<and> l < k then v ! l else f ! (l * m + i'))"
    using Suc by auto
  have step: "foldl (\<lambda>f l. f[l * m + i := v ! l]) f [0..<Suc k] = ?F[k * m + i := v ! k]"
    by simp
  have pos: "k * m + i < n * m" using Suc.prems assms(1) by (intro column_position_less) auto
  show ?case
  proof (intro conjI allI impI)
    show "length (foldl (\<lambda>f l. f[l * m + i := v ! l]) f [0..<Suc k]) = n * m"
      using IH(1) by (simp only: step length_list_update)
  next
    fix l i' assume l: "l < n" and i': "i' < m"
    show "foldl (\<lambda>f l. f[l * m + i := v ! l]) f [0..<Suc k] ! (l * m + i')
            = (if i' = i \<and> l < Suc k then v ! l else f ! (l * m + i'))"
    proof (cases "l * m + i' = k * m + i")
      case True
      then have "l = k \<and> i' = i" using column_position_inj[OF i' assms(1)] by simp
      then show ?thesis using pos IH(1) by (simp only: step) simp
    next
      case False
      then have ne: "\<not> (l = k \<and> i' = i)" by auto
      have "?F[k * m + i := v ! k] ! (l * m + i') = ?F ! (l * m + i')"
        using False by simp
      then show ?thesis using IH(2) l i' ne by (simp only: step) (auto simp: less_Suc_eq)
    qed
  qed
qed

lemma set_column_sets:
  assumes "shape r = [n, m]" "length (flat r) = n * m" "length v = n" "i < m"
  shows "\<exists>r'. set_column r i v = Inr r' \<and> shape r' = [n, m] \<and> length (flat r') = n * m
     \<and> (\<forall>l<n. \<forall>i'<m. flat r' ! (l * m + i') = (if i' = i then v ! l else flat r ! (l * m + i')))"
proof -
  let ?r' = "r\<lparr>flat := foldl (\<lambda>f l. f[l * m + i := v ! l]) (flat r) [0..<n]\<rparr>"
  have "set_column r i v = Inr ?r'" using assms(1,3) by (simp add: set_column_def)
  moreover have "shape ?r' = [n, m]" using assms(1) by simp
  moreover have "length (flat ?r') = n * m
     \<and> (\<forall>l<n. \<forall>i'<m. flat ?r' ! (l * m + i') = (if i' = i then v ! l else flat r ! (l * m + i')))"
    using fold_column[OF assms(4) le_refl assms(2), of v] by simp
  ultimately show ?thesis by blast
qed

lemma blend_columns_sets:
  assumes "\<forall>i<m. \<exists>v. blend_percentiles (slice_2d arr i) ps ws = Inr v \<and> length v = n"
  shows "shape r = [n, m] \<Longrightarrow> length (flat r) = n * m \<Longrightarrow> set is \<subseteq> {..<m} \<Longrightarrow>
     \<exists>r'. blend_columns arr ps ws is r = Inr r' \<and> shape r' = [n, m] \<and> length (flat r') = n * m
       \<and> (\<forall>l<n. \<forall>i<m. flat r' ! (l * m + i)
             = (if i \<in> set is then projr (blend_percentiles (slice_2d arr i) ps ws) ! l
                else flat r ! (l * m + i)))"
proof (induction "is" arbitrary: r)
  case Nil
  then show ?case by simp
next
  case (Cons i "is")
  have i: "i < m" using Cons.prems by simp
  obtain v where v: "blend_percentiles (slice_2d arr i) ps ws = Inr v" "length v = n"
    using assms i by blast
  obtain r1 where r1: "set_column r i v = Inr r1" "shape r1 = [n, m]" "length (flat r1) = n * m"
    "\<forall>l<n. \<forall>i'<m. flat r1 ! (l * m + i') = (if i' = i then v ! l else flat r ! (l * m + i'))"
    using set_column_sets[OF Cons.prems(1,2) v(2) i] by blast
  obtain r' where r': "blend_columns arr ps ws is r1 = Inr r'" "shape r' = [n, m]"
    "length (flat r') = n * m"
    "\<forall>l<n. \<forall>i<m. flat r' ! (l * m + i)
        = (if i \<in> set is then projr (blend_percentiles (slice_2d arr i) ps ws) ! l
           else flat r1 ! (l * m + i))"
    using Cons.IH[OF r1(2,3)] Cons.prems(3) by auto
  have "blend_columns arr ps ws (i # is) r = Inr r'" using v(1) r1(1) r'(1) by simp
  moreover have "\<forall>l<n. \<forall>i'<m. flat r' ! (l * m + i')
        = (if i' \<in> set (i # is) then projr (blend_percentiles (slice_2d arr i') ps ws) ! l
           else flat r ! (l * m + i'))"
    using r'(4) r1(4) v(1) by auto
  ultimately show ?case using r'(2,3) by blast
qed

subsection \<open>\<open>aggregate\<close>, step by step\<close>

lemma aggregate_steps:
  assumes "np_moveaxis arr [perc_dim, if axis < 0 then axis + int (ndim arr) else axis] [1, 0]
             = Inr data1"
    and "shape data1 = B # L # S"
    and "np_reshape data1 [B, L, prod_list S] = Inr data2"
    and "shape data2 = [B, L, prod_list S]"
    and "blend_columns data2 arr_percent arr_weights [0..<prod_list S] (np_zeros [L, prod_list S])
           = Inr result2"
    and "np_reshape result2 (length arr_percent # S) = Inr result3"
    and "np_moveaxis result3 [0]
           [if (if axis < 0 then axis + int (ndim arr) else axis) < perc_dim
            then perc_dim - 1 else perc_dim] = Inr result4"
  shows "aggregate arr axis arr_percent arr_weights perc_dim = Inr result4"
proof -
  have d2: "drop 2 (shape data1) = S" "shape data1 ! 0 = B" "shape data1 ! 1 = L"
    using assms(2) by simp_all
  have l: "last (shape data2) = prod_list S" using assms(4) by simp
  show ?thesis
    unfolding aggregate_def Let_def assms(1) sum.case d2 assms(3) l list.sel assms(5)
      append_Cons append_Nil assms(6)
    using assms(7) by (simp split: if_splits)
qed

lemma valid_index_nth:
  "valid_index shp idx \<Longrightarrow> length idx = length shp \<and> (\<forall>d<length shp. idx ! d < shp ! d)"
  by (auto simp: valid_index_def list_all2_conv_all_nth)

lemma valid_index_map:
  assumes "valid_index shp idx" "\<forall>k\<in>set ks. k < length shp"
  shows "valid_index (map ((!) shp) ks) (map ((!) idx) ks)"
  using assms valid_index_nth[OF assms(1)]
  by (auto simp: valid_index_def list_all2_conv_all_nth)

lemma map_nth_update_other: "k \<notin> set ks \<Longrightarrow> map ((!) (xs[k := x])) ks = map ((!) xs) ks"
  by (induction ks) auto


lemma valid_index_delete_axis:
  assumes "valid_index shp idx"
  shows "valid_index (delete_axis a shp) (delete_axis a idx)"
  using assms
  by (auto simp: valid_index_def delete_axis_def intro!: list_all2_appendI list_all2_takeI list_all2_dropI)

lemma slice_2d_rows:
  assumes "shape d = [B, L, P]"
  shows "length (slice_2d d i) = B" and "\<forall>row\<in>set (slice_2d d i). length row = L"
  using assms by (auto simp: slice_2d_def)

text \<open>
  The matrix that the loop cuts out of the reshaped array for the flattened point \<open>i\<close> is
  the matrix of the grid point in the input array.
\<close>

lemma slice_2d_point:
  assumes ac: "a \<noteq> c" "a < ndim arr" "c < ndim arr"
    and J: "valid_index (shape arr) J"
    and rest: "rest = filter (\<lambda>k. k \<notin> set [c, a]) [0..<ndim arr]"
    and S: "S = map ((!) (shape arr)) rest"
    and d2: "data2 = (np_transpose arr (a # c # rest))\<lparr>shape := [shape arr ! a, shape arr ! c, prod_list S]\<rparr>"
  shows "slice_2d data2 (ravel S (map ((!) J) rest)) = point_slices arr a c J"
proof -
  let ?B = "shape arr ! a" and ?L = "shape arr ! c" and ?r = "map ((!) J) rest"
  let ?data1 = "np_transpose arr (a # c # rest)"
  have lenJ: "length J = ndim arr" using valid_index_nth[OF J] by (simp add: ndim_def)
  have vr: "valid_index S ?r"
    unfolding S using J by (rule valid_index_map) (auto simp: rest ndim_def)
  have notin: "a \<notin> set rest" "c \<notin> set rest" by (auto simp: rest)
  have all: "\<forall>d<ndim arr. d \<in> set (a # c # rest)" by (auto simp: rest)
  have entry: "item data2 [b, l, ravel S ?r] = item arr (J[a := b, c := l])"
    if b: "b < ?B" and l: "l < ?L" for b l
  proof -
    have "item data2 [b, l, ravel S ?r] = item ?data1 (b # l # ?r)"
      by (simp add: item_def d2 shape_np_transpose S add.assoc)
    also have "\<dots> = item arr (J[a := b, c := l])"
    proof (rule item_np_transpose)
      show "valid_index (map ((!) (shape arr)) (a # c # rest)) (b # l # ?r)"
        using vr b l by (simp add: valid_index_def S)
      show "length (J[a := b, c := l]) = ndim arr" using lenJ by simp
      show "\<forall>d<ndim arr. d \<in> set (a # c # rest)" by (rule all)
      have "map ((!) (J[a := b, c := l])) rest = ?r"
        using notin by (simp add: map_nth_update_other)
      then show "map ((!) (J[a := b, c := l])) (a # c # rest) = b # l # ?r"
        using ac lenJ by simp
    qed
    finally show ?thesis .
  qed
  have sh2: "shape data2 = [?B, ?L, prod_list S]" by (simp add: d2)
  show ?thesis
    unfolding slice_2d_def point_slices_def sh2 using entry by simp
qed


lemma set_list_insert: "set (list_insert k x xs) = insert x (set xs)"
  by (auto simp: list_insert_def dest: in_set_takeD in_set_dropD)
    (metis Un_iff append_take_drop_id set_append)

lemma aggregate_main:
  assumes wf: "wf_array arr" and ac: "a \<noteq> c" "a < ndim arr" "c < ndim arr"
    and lp: "length ps = shape arr ! c"
    and pos: "0 < shape arr ! c" "0 < shape arr ! a"
    and w: "shape arr ! a \<le> length ws"
  shows "\<exists>result. aggregate arr (int a) ps ws (int c) = Inr result
     \<and> shape result = delete_axis a (shape arr)
     \<and> (\<forall>J. valid_index (shape arr) J \<longrightarrow>
           (\<exists>v. blend_percentiles (point_slices arr a c J) ps ws = Inr v
              \<and> item result (delete_axis a J) = v ! (J ! c)))"
proof -
  define shp where "shp = shape arr"
  define B where "B = shp ! a"
  define L where "L = shp ! c"
  define rest where "rest = filter (\<lambda>k. k \<notin> set [c, a]) [0..<ndim arr]"
  define S where "S = map ((!) shp) rest"
  define P where "P = prod_list S"
  define p where "p = (if a < c then c - 1 else c)"
  define data1 where "data1 = np_transpose arr (a # c # rest)"
  define data2 where "data2 = data1\<lparr>shape := [B, L, P]\<rparr>"
  have nd: "length shp = ndim arr" by (simp add: shp_def ndim_def)
  have ac': "a < length shp" "c < length shp" using ac nd by auto

  \<comment> \<open>the first \<open>moveaxis\<close> and the first \<open>reshape\<close>\<close>
  have m1: "np_moveaxis arr [int c, if int a < 0 then int a + int (ndim arr) else int a] [1, 0]
              = Inr data1"
    using np_moveaxis_front[OF ac] by (simp add: data1_def rest_def)
  have sh1: "shape data1 = B # L # S"
    by (simp add: data1_def shape_np_transpose B_def L_def S_def shp_def)
  have "length (flat data1) = prod_list (shape data1)"
    using wf_np_transpose[of arr "a # c # rest"] by (simp add: data1_def wf_array_def)
  then have len1: "length (flat data1) = B * L * P" by (simp add: sh1 P_def mult.assoc)
  have rs1: "np_reshape data1 [B, L, prod_list S] = Inr data2"
    using len1 by (simp add: np_reshape_def data2_def P_def mult.assoc)
  have sh2: "shape data2 = [B, L, prod_list S]" by (simp add: data2_def P_def)

  \<comment> \<open>the loop\<close>
  have ret: "\<exists>v. blend_percentiles (slice_2d data2 i) ps ws = Inr v \<and> length v = L" for i
  proof -
    have "length (slice_2d data2 i) = B" "\<forall>row\<in>set (slice_2d data2 i). length row = L"
      using slice_2d_rows[OF sh2] by auto
    moreover have "0 < B" "0 < L" "B \<le> length ws" "length ps = L"
      using pos w lp by (auto simp: B_def L_def shp_def)
    ultimately have "\<exists>v. blend_percentiles (slice_2d data2 i) ps ws = Inr v
                       \<and> length v = length ps"
      by (intro blend_percentiles_returns) auto
    then show ?thesis using \<open>length ps = L\<close> by simp
  qed
  have z: "shape (np_zeros [L, P]) = [L, P]" "length (flat (np_zeros [L, P])) = L * P"
    by (simp_all add: np_zeros_def)
  have "\<exists>r'. blend_columns data2 ps ws [0..<P] (np_zeros [L, P]) = Inr r' \<and> shape r' = [L, P]
          \<and> length (flat r') = L * P
          \<and> (\<forall>l<L. \<forall>i<P. flat r' ! (l * P + i)
                = (if i \<in> set [0..<P] then projr (blend_percentiles (slice_2d data2 i) ps ws) ! l
                   else flat (np_zeros [L, P]) ! (l * P + i)))"
    using ret z by (intro blend_columns_sets) auto
  then obtain result2 where bc: "blend_columns data2 ps ws [0..<P] (np_zeros [L, P]) = Inr result2"
    and len2: "length (flat result2) = L * P"
    and val2: "\<forall>l<L. \<forall>i<P. flat result2 ! (l * P + i)
                 = projr (blend_percentiles (slice_2d data2 i) ps ws) ! l"
    by auto

  \<comment> \<open>the second \<open>reshape\<close> and the second \<open>moveaxis\<close>\<close>
  define result3 where "result3 = result2\<lparr>shape := L # S\<rparr>"
  define result4 where "result4 = np_transpose result3 (list_insert p 0 [1..<Suc (length S)])"
  have lpL: "length ps = L" using lp by (simp add: L_def shp_def)
  have rs2: "np_reshape result2 (length ps # S) = Inr result3"
    using len2 by (simp add: np_reshape_def result3_def lpL P_def)
  have Sdel: "S = delete_axis p (delete_axis a shp)"
    using rest_axes[OF ac(1) ac'] by (simp add: S_def rest_def nd p_def)
  have pdel: "p < length (delete_axis a shp)"
    using delete_axis_nth(2)[OF ac(1) ac'] by (simp add: p_def)
  have lenS: "length S = length (delete_axis a shp) - 1"
    unfolding Sdel using pdel by (rule length_delete_axis)
  have pS: "p \<le> length S" using pdel lenS by simp
  have nd3: "ndim result3 = Suc (length S)" by (simp add: ndim_def result3_def)
  have "np_moveaxis result3 [0] [int p] = Inr result4"
    using np_moveaxis_back[of p result3] pS by (simp add: nd3 result4_def)
  moreover have "(if int a < int c then int c - 1 else int c) = int p"
    by (auto simp: p_def)
  ultimately have m2: "np_moveaxis result3 [0]
      [if (if int a < 0 then int a + int (ndim arr) else int a) < int c
       then int c - 1 else int c] = Inr result4"
    by simp
  have agg: "aggregate arr (int a) ps ws (int c) = Inr result4"
    using m1 sh1 rs1 sh2 bc[unfolded P_def] rs2 m2 by (rule aggregate_steps)

  \<comment> \<open>the shape of the result\<close>
  have sh4: "shape result4 = list_insert p L S"
    using map_nth_list_insert[OF pS, of L]
    by (simp add: result4_def shape_np_transpose result3_def)
  have "list_insert p (delete_axis a shp ! p) (delete_axis p (delete_axis a shp)) = delete_axis a shp"
    using delete_axis_nth(2)[OF ac(1) ac'] by (intro list_insert_delete_axis) (simp add: p_def)
  then have shape4: "shape result4 = delete_axis a shp"
    using delete_axis_nth(1)[OF ac(1) ac'] by (simp add: sh4 Sdel L_def p_def)

  \<comment> \<open>the elements of the result\<close>
  have elem: "\<exists>v. blend_percentiles (point_slices arr a c J) ps ws = Inr v
                \<and> item result4 (delete_axis a J) = v ! (J ! c)"
    if J: "valid_index (shape arr) J" for J
  proof -
    let ?idx = "delete_axis a J" and ?r = "map ((!) J) rest"
    have lenJ: "length J = length shp" and Jc: "J ! c < L"
      using valid_index_nth[OF J] ac' by (auto simp: shp_def L_def)
    have aJ: "a < length J" "c < length J" using ac' lenJ by auto
    have r: "?r = delete_axis p ?idx"
      using rest_axes[OF ac(1) aJ] by (simp add: rest_def p_def lenJ nd)
    have idxp: "?idx ! p = J ! c" and pidx: "p < length ?idx"
      using delete_axis_nth[OF ac(1) aJ] by (simp_all add: p_def)
    have vidx: "valid_index (delete_axis a shp) ?idx"
      using J unfolding shp_def by (rule valid_index_delete_axis)
    have vr: "valid_index S ?r"
      unfolding S_def shp_def using J by (rule valid_index_map) (auto simp: rest_def ndim_def)
    have i: "ravel S ?r < P"
      using vr by (simp add: P_def valid_index_def ravel_less)
    have "item result4 ?idx = item result3 ((J ! c) # ?r)"
      unfolding result4_def
    proof (rule item_np_transpose)
      show "valid_index (map ((!) (shape result3)) (list_insert p 0 [1..<Suc (length S)])) ?idx"
        using vidx shape4 by (simp add: result4_def shape_np_transpose)
      show "length ((J ! c) # ?r) = ndim result3"
        using vr valid_index_nth[OF vr] by (simp add: nd3)
      show "\<forall>d<ndim result3. d \<in> set (list_insert p 0 [1..<Suc (length S)])"
        unfolding nd3 set_list_insert by auto
      have "length (delete_axis p ?idx) = length S"
        using valid_index_nth[OF vr] r by simp
      then have "map ((!) (?idx ! p # delete_axis p ?idx)) (list_insert p 0 [1..<Suc (length S)])
                   = list_insert p (?idx ! p) (delete_axis p ?idx)"
        using map_nth_list_insert[of p "delete_axis p ?idx" "?idx ! p"] pS by simp
      also have "\<dots> = ?idx" using pidx by (rule list_insert_delete_axis)
      finally show "map ((!) ((J ! c) # ?r)) (list_insert p 0 [1..<Suc (length S)]) = ?idx"
        by (simp only: r idxp)
    qed
    also have "\<dots> = flat result2 ! (J ! c * P + ravel S ?r)"
      by (simp add: item_def result3_def P_def)
    also have "\<dots> = projr (blend_percentiles (slice_2d data2 (ravel S ?r)) ps ws) ! (J ! c)"
      using val2 Jc i by simp
    finally have it: "item result4 ?idx
        = projr (blend_percentiles (slice_2d data2 (ravel S ?r)) ps ws) ! (J ! c)" .
    have sl: "slice_2d data2 (ravel S ?r) = point_slices arr a c J"
      using ac J by (rule slice_2d_point)
        (simp_all add: rest_def S_def shp_def data2_def data1_def B_def L_def P_def)
    obtain v where v: "blend_percentiles (slice_2d data2 (ravel S ?r)) ps ws = Inr v"
      using ret by blast
    show ?thesis using it v by (simp add: sl)
  qed
  show ?thesis using agg shape4 elem by (auto simp: shp_def)
qed

lemma aggregate_normalised:
  "aggregate arr axis ps ws pd
     = aggregate arr (if axis < 0 then axis + int (ndim arr) else axis) ps ws pd"
  if "0 \<le> (if axis < 0 then axis + int (ndim arr) else axis)"
  using that by (simp add: aggregate_def Let_def)

lemma valid_index_list_insert:
  assumes "valid_index (delete_axis a shp) idx" "a < length shp" "b < shp ! a"
  shows "valid_index shp (list_insert a b idx)"
proof -
  have shp: "shp = take a shp @ shp ! a # drop (Suc a) shp"
    using assms(2) by (rule id_take_nth_drop)
  have all: "list_all2 (<) idx (take a shp @ drop (Suc a) shp)"
    using assms(1) by (simp add: valid_index_def delete_axis_def)
  then have len: "length idx = length (take a shp @ drop (Suc a) shp)"
    by (rule list_all2_lengthD)
  have all': "list_all2 (<) (take a idx @ drop a idx) (take a shp @ drop (Suc a) shp)"
    using all by simp
  have lt: "length (take a idx) = length (take a shp)" using len assms(2) by simp
  have "list_all2 (<) (take a idx) (take a shp) \<and> list_all2 (<) (drop a idx) (drop (Suc a) shp)"
    using list_all2_append[OF lt, of "(<)" "drop a idx" "drop (Suc a) shp"] all' by blast
  then have "list_all2 (<) (take a idx @ b # drop a idx) (take a shp @ shp ! a # drop (Suc a) shp)"
    using assms(3) by (intro list_all2_appendI) auto
  then show ?thesis using shp by (simp add: valid_index_def list_insert_def)
qed

lemma delete_axis_list_insert: "a \<le> length idx \<Longrightarrow> delete_axis a (list_insert a b idx) = idx"
  by (simp add: delete_axis_def list_insert_def)

text \<open>
  Claim C1. The array has one element for each index of its shape, the blend axis (after
  the wrap-around of a negative \<open>axis\<close>) and the percentile axis are distinct axes of the
  array, and the arguments are as the docstring of \<open>aggregate\<close> says: \<open>arr_percent\<close> has
  the size of the percentile axis and \<open>arr_weights\<close> covers the blend axis; neither axis is
  empty. Then \<open>aggregate\<close> returns an array whose shape is the shape of the input without
  the blend axis. The percentile axis of the result is axis \<open>perc_dim - 1\<close> when the blend
  axis came before the percentile axis, and axis \<open>perc_dim\<close> otherwise: the length of that
  axis is the number of percentiles, and the element at an index \<open>idx\<close> of the result is
  component \<open>idx[p]\<close> of the blend of the matrix of values at the grid point of \<open>idx\<close>.
\<close>

theorem aggregate_axis_placement:
  assumes "wf_array arr"
    and "- int (ndim arr) \<le> axis" "axis < int (ndim arr)"
    and "a = nat (if axis < 0 then axis + int (ndim arr) else axis)"
    and "perc_dim < ndim arr" "a \<noteq> perc_dim"
    and "length arr_percent = shape arr ! perc_dim"
    and "0 < shape arr ! perc_dim" "0 < shape arr ! a" "shape arr ! a \<le> length arr_weights"
    and "p = (if a < perc_dim then perc_dim - 1 else perc_dim)"
  shows "\<exists>result. aggregate arr axis arr_percent arr_weights (int perc_dim) = Inr result
     \<and> shape result = delete_axis a (shape arr)
     \<and> shape result ! p = length arr_percent
     \<and> (\<forall>idx. valid_index (shape result) idx \<longrightarrow>
           (\<exists>v. blend_percentiles (point_slices arr a perc_dim (list_insert a 0 idx))
                   arr_percent arr_weights = Inr v
              \<and> item result idx = v ! (idx ! p)))"
proof -
  have a: "a < ndim arr" and ia: "int a = (if axis < 0 then axis + int (ndim arr) else axis)"
    using assms(2,3,4) by auto
  have al: "a < length (shape arr)" "perc_dim < length (shape arr)"
    using a assms(5) by (simp_all add: ndim_def)
  have "aggregate arr axis arr_percent arr_weights (int perc_dim)
          = aggregate arr (int a) arr_percent arr_weights (int perc_dim)"
    unfolding ia using assms(2) by (intro aggregate_normalised) auto
  moreover obtain result where
    r: "aggregate arr (int a) arr_percent arr_weights (int perc_dim) = Inr result"
    and sh: "shape result = delete_axis a (shape arr)"
    and el: "\<forall>J. valid_index (shape arr) J \<longrightarrow>
           (\<exists>v. blend_percentiles (point_slices arr a perc_dim J) arr_percent arr_weights = Inr v
              \<and> item result (delete_axis a J) = v ! (J ! perc_dim))"
    using aggregate_main[OF assms(1) assms(6) a assms(5) assms(7) assms(8) assms(9) assms(10)]
    by blast
  have shp: "shape result ! p = length arr_percent"
    using delete_axis_nth(1)[OF assms(6) al] by (simp add: sh assms(11) assms(7))
  have "\<exists>v. blend_percentiles (point_slices arr a perc_dim (list_insert a 0 idx))
               arr_percent arr_weights = Inr v \<and> item result idx = v ! (idx ! p)"
    if v: "valid_index (shape result) idx" for idx
  proof -
    let ?J = "list_insert a 0 idx"
    have J: "valid_index (shape arr) ?J"
      using v al(1) assms(9) unfolding sh by (rule valid_index_list_insert)
    have lenJ: "length ?J = length (shape arr)" using valid_index_nth[OF J] by simp
    have "length idx = length (shape arr) - 1"
      using valid_index_nth[OF v] al(1) by (simp add: sh length_delete_axis)
    then have d: "delete_axis a ?J = idx" using al(1) by (intro delete_axis_list_insert) simp
    have "delete_axis a ?J ! p = ?J ! perc_dim"
      using delete_axis_nth(1)[OF assms(6), of ?J] al lenJ by (simp add: assms(11))
    then have "?J ! perc_dim = idx ! p" by (simp add: d)
    then show ?thesis using el J d by metis
  qed
  ultimately show ?thesis using r sh shp by auto
qed

text \<open>
  An array of shape (time = 3, percentile = 5, lat = 2, lon = 2), blended along axis 0 with
  the percentile axis 1: the result has the shape (5, 2, 2), and the percentile axis is
  axis 0.
\<close>

theorem aggregate_axis_placement_witness:
  "wf_array \<lparr>shape = [3, 5, 2, 2], flat = replicate 60 1\<rparr>
   \<and> (\<exists>result. aggregate \<lparr>shape = [3, 5, 2, 2], flat = replicate 60 1\<rparr> 0
                  [0, 25, 50, 75, 100] [1/3, 1/3, 1/3] 1 = Inr result
        \<and> shape result = [5, 2, 2] \<and> shape result ! 0 = 5
        \<and> (\<exists>v. blend_percentiles
                   (point_slices \<lparr>shape = [3, 5, 2, 2], flat = replicate 60 1\<rparr> 0 1 [0, 4, 1, 1])
                   [0, 25, 50, 75, 100] [1/3, 1/3, 1/3] = Inr v
              \<and> item result [4, 1, 1] = v ! 4))"
proof -
  let ?arr = "\<lparr>shape = [3, 5, 2, 2], flat = replicate 60 (1::real)\<rparr>"
  have wf: "wf_array ?arr" by (simp add: wf_array_def)
  obtain result where r: "aggregate ?arr 0 [0, 25, 50, 75, 100] [1/3, 1/3, 1/3] (int 1) = Inr result"
    and sh: "shape result = delete_axis 0 (shape ?arr)"
    and p: "shape result ! 0 = length [0, 25, 50, 75, 100::real]"
    and el: "\<forall>idx. valid_index (shape result) idx \<longrightarrow>
           (\<exists>v. blend_percentiles (point_slices ?arr 0 1 (list_insert 0 0 idx))
                   [0, 25, 50, 75, 100] [1/3, 1/3, 1/3] = Inr v
              \<and> item result idx = v ! (idx ! 0))"
    using aggregate_axis_placement [of ?arr 0 0 1 "[0, 25, 50, 75, 100]" "[1/3, 1/3, 1/3]" 0]
    by (auto simp: wf_array_def ndim_def)
  have sh': "shape result = [5, 2, 2]" using sh by (simp add: delete_axis_def)
  then have "valid_index (shape result) [4, 1, 1]" by (simp add: valid_index_def)
  then have "\<exists>v. blend_percentiles (point_slices ?arr 0 1 (list_insert 0 0 [4, 1, 1]))
                   [0, 25, 50, 75, 100] [1/3, 1/3, 1/3] = Inr v
              \<and> item result [4, 1, 1] = v ! ([4, 1, 1] ! 0)"
    using el by blast
  then show ?thesis using wf r sh' by (auto simp: list_insert_def)
qed

text \<open>
  The two orders of the axes in full, on the array of shape (2, 2, 3) and on the array of
  shape (2, 3, 2) with the elements 0 to 11. Blending axis 0 with the percentile axis 2
  leaves the percentiles at axis 1; blending the last axis, given as \<open>-1\<close>, with the
  percentile axis 1 leaves them at axis 1.
\<close>

lemma aggregate_example_axis_before:
  "aggregate \<lparr>shape = [2, 2, 3], flat = [0, 1, 2, 3, 4, 5, 6, 7, 8, 9, 10, 11]\<rparr> 0
      [25, 50, 75] [1/4, 3/4] 2
     = Inr \<lparr>shape = [2, 3], flat = [0, 20/3, 8, 3, 29/3, 11]\<rparr>"
  by code_simp

lemma aggregate_example_axis_after:
  "aggregate \<lparr>shape = [2, 3, 2], flat = [0, 1, 2, 3, 4, 5, 6, 7, 8, 9, 10, 11]\<rparr> (- 1)
      [25, 50, 75] [1/4, 3/4] 1
     = Inr \<lparr>shape = [2, 3], flat = [0, 11/4, 5, 6, 35/4, 11]\<rparr>"
  by code_simp

subsection \<open>Where exceptions come from\<close>

lemma np_interp_error: "np_interp x xp fp = Inl e \<Longrightarrow> \<not> raised_by_checks e"
  by (auto simp: np_interp_def raised_by_checks_def is_PercentileDimensionError_def split: if_splits)

lemma accumulate_row_error:
  "accumulate_row pv ps ws i js acc = Inl e \<Longrightarrow> \<not> raised_by_checks e"
proof (induction js arbitrary: acc)
  case Nil
  then show ?case by simp
next
  case (Cons j js)
  then show ?case
    by (auto simp: raised_by_checks_def is_PercentileDimensionError_def
        split: sum.splits if_splits dest!: np_interp_error)
qed

lemma combined_rows_error:
  "combined_rows pv ps ws is = Inl e \<Longrightarrow> \<not> raised_by_checks e"
  by (induction "is" arbitrary: e) (auto split: sum.splits dest: accumulate_row_error)

lemma blend_percentiles_error:
  "blend_percentiles pv ps ws = Inl e \<Longrightarrow> \<not> raised_by_checks e"
  by (auto simp: blend_percentiles_def Let_def split: sum.splits
      dest: combined_rows_error np_interp_error)

lemma set_column_error: "set_column r i v = Inl e \<Longrightarrow> \<not> raised_by_checks e"
  by (auto simp: set_column_def Let_def raised_by_checks_def is_PercentileDimensionError_def
      split: if_splits)

lemma blend_columns_error:
  "blend_columns d ps ws is r = Inl e \<Longrightarrow> \<not> raised_by_checks e"
  by (induction "is" arbitrary: r)
    (auto split: sum.splits dest: blend_percentiles_error set_column_error)

lemma normalize_axis_index_error:
  "normalize_axis_index axis nd = Inl e \<Longrightarrow> e = AxisError"
  by (auto simp: normalize_axis_index_def split: if_splits)

lemma normalize_axes_error: "normalize_axes axes nd = Inl e \<Longrightarrow> e = AxisError"
  by (induction axes arbitrary: e) (auto split: sum.splits dest: normalize_axis_index_error)

lemma np_moveaxis_error: "np_moveaxis a src dst = Inl e \<Longrightarrow> e = AxisError"
  by (auto simp: np_moveaxis_def normalize_axis_tuple_def Let_def
      split: sum.splits if_splits dest: normalize_axes_error)

lemma np_reshape_error: "np_reshape a shp = Inl e \<Longrightarrow> e = ReshapeError"
  by (auto simp: np_reshape_def split: if_splits)

lemma aggregate_error:
  "aggregate d axis ps ws perc_dim = Inl e \<Longrightarrow> \<not> raised_by_checks e"
  unfolding aggregate_def Let_def
  by (auto split: sum.splits if_splits
      dest!: np_moveaxis_error np_reshape_error blend_columns_error
      simp: raised_by_checks_def is_PercentileDimensionError_def)

lemma cube_coord_error: "cube_coord cube nm = Inl e \<Longrightarrow> e = CoordinateNotFoundError"
  by (auto simp: cube_coord_def split: list.splits)

lemma cube_coord_dims_error: "cube_coord_dims cube nm = Inl e \<Longrightarrow> e = CoordinateNotFoundError"
  by (auto simp: cube_coord_dims_def split: sum.splits dest: cube_coord_error)

lemma collapsed_error:
  assumes "collapsed cube nm aggregator weights = Inl e"
    and "\<And>d axis w e. aggregator d axis w = Inl e \<Longrightarrow> \<not> raised_by_checks e"
  shows "\<not> raised_by_checks e"
  using assms
  by (auto simp: collapsed_def Let_def raised_by_checks_def is_PercentileDimensionError_def
      split: sum.splits option.splits if_splits dest!: cube_coord_dims_error)

lemma MEAN_error: "MEAN a axis w = Inl e \<Longrightarrow> \<not> raised_by_checks e"
  by (auto simp: MEAN_def Let_def raised_by_checks_def is_PercentileDimensionError_def
      split: sum.splits option.splits if_splits dest!: normalize_axis_index_error)

lemma mean_blend_error: "mean_blend cube nm d w = Inl e \<Longrightarrow> \<not> raised_by_checks e"
  by (auto simp: mean_blend_def broadcast_to_shape_def raised_by_checks_def
      is_PercentileDimensionError_def
      split: sum.splits option.splits if_splits dest: collapsed_error[OF _ MEAN_error])

lemma percentile_blend_error: "percentile_blend cube nm pc w = Inl e \<Longrightarrow> \<not> raised_by_checks e"
  unfolding percentile_blend_def Let_def
  by (auto simp: raised_by_checks_def is_PercentileDimensionError_def
      split: sum.splits option.splits
      dest!: cube_coord_dims_error cube_coord_error
      dest: collapsed_error[OF _ aggregate_error])

lemma set_points_error: "set_points crd pnts = Inl e \<Longrightarrow> e = PointsShapeError"
  by (auto simp: set_points_def split: if_splits)

lemma set_bounds_error: "set_bounds crd bnds = Inl e \<Longrightarrow> e = BoundsShapeError"
  by (auto simp: set_bounds_def split: if_splits)

lemma adjust_coords_error:
  "adjust_coords adj same cd cube result ks = (cube', Inl e) \<Longrightarrow> \<not> raised_by_checks e"
proof (induction ks arbitrary: cube result)
  case Nil
  then show ?case by simp
next
  case (Cons k ks)
  then show ?case
    by (auto simp: Let_def raised_by_checks_def is_PercentileDimensionError_def
        split: sum.splits if_splits
        dest!: cube_coord_dims_error cube_coord_error set_points_error)
qed

subsection \<open>The checks of \<open>process\<close>\<close>

lemma scan_percentile:
  "foldl (\<lambda>(perc_coord, perc_found) coord.
            if str_find (name coord) ''percentile'' \<ge> 0
            then (Some coord, perc_found + 1)
            else (perc_coord, perc_found)) (pc, n) cs
     = (if filter (\<lambda>c. str_find (name c) ''percentile'' \<ge> 0) cs = [] then pc
        else Some (last (filter (\<lambda>c. str_find (name c) ''percentile'' \<ge> 0) cs)),
        n + length (filter (\<lambda>c. str_find (name c) ''percentile'' \<ge> 0) cs))"
  by (induction cs arbitrary: pc n) auto

lemma find_percentile_coord_eq:
  "find_percentile_coord cube
     = (if percentile_coords cube = [] then None else Some (last (percentile_coords cube)),
        length (percentile_coords cube))"
  by (simp add: find_percentile_coord_def percentile_coords_def scan_percentile)

lemma sole_percentile_coord:
  assumes "percentile_coords cube = [pc]"
  shows "cube_coord cube (name pc) = Inr pc"
proof -
  let ?P = "\<lambda>c. str_find (name c) ''percentile'' \<ge> 0"
  have "pc \<in> set (percentile_coords cube)" using assms by simp
  then have P: "?P pc" by (simp add: percentile_coords_def)
  have "filter (\<lambda>c. name c = name pc) (coords cube)
          = filter (\<lambda>c. name c = name pc) (filter ?P (coords cube))"
    using P by (auto intro: filter_cong)
  also have "\<dots> = filter (\<lambda>c. name c = name pc) [pc]"
    using assms by (simp only: percentile_coords_def)
  also have "\<dots> = [pc]" by simp
  finally show ?thesis by (simp add: cube_coord_def)
qed

lemma check_percentile_none:
  assumes "percentile_coords cube = []"
  shows "find_percentile_coord cube = (None, 0)"
    and "check_percentile_coord cube None 0 = Inr ()"
  using assms by (simp_all add: find_percentile_coord_eq check_percentile_coord_def)

lemma check_percentile_sole:
  assumes "percentile_coords cube = [pc]"
  shows "find_percentile_coord cube = (Some pc, 1)"
    and "check_percentile_coord cube (Some pc) 1
           = (if data_dim pc = None then Inl PercentileNotDimension
              else if length (points pc) < 2 then Inl PercentileTooFewPoints
              else Inr ())"
  using assms sole_percentile_coord[OF assms]
  by (simp_all add: find_percentile_coord_eq check_percentile_coord_def cube_coord_dims_def)

lemma check_percentile_many:
  assumes "1 < length (percentile_coords cube)"
  shows "check_percentile_coord cube (fst (find_percentile_coord cube))
           (snd (find_percentile_coord cube)) = Inl MultiplePercentileCoords"
  using assms by (simp add: find_percentile_coord_eq check_percentile_coord_def)

lemma process_check_fails:
  assumes "check_percentile_coord cube (fst (find_percentile_coord cube))
             (snd (find_percentile_coord cube)) = Inl e"
  shows "process self cube weights = raise cube e"
  using assms by (simp add: process_def split_def)

text \<open>What \<open>process\<close> does once the checks on the percentile coordinate have passed.\<close>

lemma process_checked:
  assumes "find_percentile_coord cube = (perc_coord, perc_found)"
    and "check_percentile_coord cube perc_coord perc_found = Inr ()"
  shows "process self cube weights =
     (case check_weights cube (coord self) weights of
        Inl e \<Rightarrow> raise cube e
      | Inr _ \<Rightarrow>
     (case cube_coord_dims cube (coord self) of
        Inl e \<Rightarrow> raise cube e
      | Inr coord_dim \<Rightarrow>
          let (msgs, same, blended) =
                (case coord_dim of
                   None \<Rightarrow>
                     ([''Trying to blend across a scalar coordinate with only one value. Returning original cube''],
                      True, Inr cube)
                 | Some d \<Rightarrow>
                     (case perc_coord of
                        Some pc \<Rightarrow> ([], False, percentile_blend cube (coord self) pc weights)
                      | None \<Rightarrow> ([], False, mean_blend cube (coord self) d weights)))
          in
          (case blended of
             Inl e \<Rightarrow> \<lparr>input_cube = cube, warnings = msgs, outcome = Inl e, returns_input = False\<rparr>
           | Inr result \<Rightarrow>
               (case coord_adjust self of
                  None \<Rightarrow>
                    \<lparr>input_cube = cube, warnings = msgs, outcome = Inr result, returns_input = same\<rparr>
                | Some adjust \<Rightarrow>
                    let (cube', res) = adjust_coords adjust same coord_dim cube result
                                         [0..<length (coords result)]
                    in \<lparr>input_cube = cube', warnings = msgs, outcome = res,
                         returns_input = same\<rparr>))))"
  using assms by (simp add: process_def)

lemma adjust_coords_error_snd:
  "snd (adjust_coords adj same cd cube result ks) = Inl e \<Longrightarrow> \<not> raised_by_checks e"
  by (cases "adjust_coords adj same cd cube result ks") (auto dest: adjust_coords_error)

text \<open>After the checks, no exception of \<open>process\<close> is one that the checks raise.\<close>

lemma process_checked_error:
  assumes "find_percentile_coord cube = (perc_coord, perc_found)"
    and "check_percentile_coord cube perc_coord perc_found = Inr ()"
    and "check_weights cube (coord self) weights = Inr ()"
    and "outcome (process self cube weights) = Inl e"
  shows "\<not> raised_by_checks e"
proof -
  have cd: "\<not> raised_by_checks e'" if "cube_coord_dims cube (coord self) = Inl e'" for e'
    using cube_coord_dims_error[OF that]
    by (simp add: raised_by_checks_def is_PercentileDimensionError_def)
  show ?thesis
    using assms(4) unfolding process_checked[OF assms(1,2)] assms(3)
    by (auto simp: raise_def Let_def split_def
        split: sum.splits option.splits prod.splits
        dest: cd mean_blend_error percentile_blend_error adjust_coords_error_snd)
qed

subsection \<open>The adjustment of the collapsed coordinates\<close>

lemma unique_by_name:
  "distinct (map name cs) \<Longrightarrow> nm \<in> set (map name cs) \<Longrightarrow> \<exists>c. filter (\<lambda>x. name x = nm) cs = [c]"
proof (induction cs)
  case Nil
  then show ?case by simp
next
  case (Cons c cs)
  show ?case
  proof (cases "name c = nm")
    case True
    then have "filter (\<lambda>x. name x = nm) cs = []"
      using Cons.prems(1) by (auto simp: filter_empty_conv image_iff)
    then show ?thesis using True by simp
  next
    case False
    then show ?thesis using Cons by auto
  qed
qed

lemma cube_coord_found:
  assumes "distinct (map name (coords cube))" "nm \<in> set (map name (coords cube))"
  shows "\<exists>c. cube_coord cube nm = Inr c"
  using unique_by_name[OF assms] by (auto simp: cube_coord_def)



lemma adjust_coords_cube_unchanged:
  "fst (adjust_coords adj False cd cube result ks) = cube"
  by (induction ks arbitrary: result) (auto simp: Let_def split: sum.splits)

subsection \<open>The percentile checks\<close>

text \<open>
  Claim C6. \<open>process\<close> raises one of the three errors of the percentile checks whenever the
  cube has more than one coordinate whose name contains \<open>percentile\<close>, or its only such
  coordinate describes no data dimension or has fewer than two points; nothing of the call
  has run before the check, and the cube is as it was. With no such coordinate \<open>process\<close>
  raises none of these errors, and, over a coordinate that describes a data dimension, what
  it returns is the result of the weighted average, with the adjusted coordinates when
  \<open>coord_adjust\<close> is set.
\<close>

theorem process_percentile_dimension_error:
  "(1 < length (percentile_coords cube)
      \<or> (\<exists>pc. percentile_coords cube = [pc] \<and> (data_dim pc = None \<or> length (points pc) < 2))
    \<longrightarrow> (\<exists>e. process self cube weights = raise cube e \<and> is_PercentileDimensionError e))
   \<and> (percentile_coords cube = [] \<longrightarrow>
        (\<forall>e. outcome (process self cube weights) = Inl e \<longrightarrow> \<not> is_PercentileDimensionError e)
        \<and> (\<forall>d. check_weights cube (coord self) weights = Inr ()
                \<longrightarrow> cube_coord_dims cube (coord self) = Inr (Some d)
                \<longrightarrow> outcome (process self cube weights)
                     = (case mean_blend cube (coord self) d weights of
                          Inl e \<Rightarrow> Inl e
                        | Inr result \<Rightarrow>
                            (case coord_adjust self of
                               None \<Rightarrow> Inr result
                             | Some adjust \<Rightarrow>
                                 snd (adjust_coords adjust False (Some d) cube result
                                        [0..<length (coords result)])))))"
proof (intro conjI impI)
  assume "1 < length (percentile_coords cube)
      \<or> (\<exists>pc. percentile_coords cube = [pc] \<and> (data_dim pc = None \<or> length (points pc) < 2))"
  then consider "1 < length (percentile_coords cube)"
    | pc where "percentile_coords cube = [pc]" "data_dim pc = None \<or> length (points pc) < 2"
    by blast
  then show "\<exists>e. process self cube weights = raise cube e \<and> is_PercentileDimensionError e"
  proof cases
    case 1
    then have "process self cube weights = raise cube MultiplePercentileCoords"
      by (intro process_check_fails check_percentile_many)
    then show ?thesis by (auto simp: is_PercentileDimensionError_def)
  next
    case 2
    have "check_percentile_coord cube (fst (find_percentile_coord cube))
            (snd (find_percentile_coord cube))
          = (if data_dim pc = None then Inl PercentileNotDimension
             else if length (points pc) < 2 then Inl PercentileTooFewPoints
             else Inr ())"
      by (simp only: check_percentile_sole[OF 2(1)] fst_conv snd_conv)
    then have "\<exists>e. check_percentile_coord cube (fst (find_percentile_coord cube))
                 (snd (find_percentile_coord cube)) = Inl e \<and> is_PercentileDimensionError e"
      using 2(2) by (auto simp: is_PercentileDimensionError_def)
    then show ?thesis using process_check_fails by blast
  qed
next
  assume none: "percentile_coords cube = []"
  note chk = check_percentile_none[OF none]
  show "\<forall>e. outcome (process self cube weights) = Inl e \<longrightarrow> \<not> is_PercentileDimensionError e"
  proof (intro allI impI)
    fix e assume e: "outcome (process self cube weights) = Inl e"
    show "\<not> is_PercentileDimensionError e"
    proof (cases "check_weights cube (coord self) weights")
      case (Inl e')
      then have "e' = WeightShapeMismatch \<or> e' = CoordinateNotFoundError"
        by (auto simp: check_weights_def split: option.splits sum.splits if_splits
            dest: cube_coord_error)
      moreover have "e = e'"
        using e Inl by (simp add: process_checked[OF chk] raise_def)
      ultimately show ?thesis by (auto simp: is_PercentileDimensionError_def)
    next
      case (Inr u)
      then have "\<not> raised_by_checks e"
        using process_checked_error[OF chk _ e] by simp
      then show ?thesis by (simp add: raised_by_checks_def)
    qed
  qed
  show "\<forall>d. check_weights cube (coord self) weights = Inr ()
          \<longrightarrow> cube_coord_dims cube (coord self) = Inr (Some d)
          \<longrightarrow> outcome (process self cube weights)
               = (case mean_blend cube (coord self) d weights of
                    Inl e \<Rightarrow> Inl e
                  | Inr result \<Rightarrow>
                      (case coord_adjust self of
                         None \<Rightarrow> Inr result
                       | Some adjust \<Rightarrow>
                           snd (adjust_coords adjust False (Some d) cube result
                                  [0..<length (coords result)])))"
    by (simp add: process_checked[OF chk] split_def Let_def split: sum.splits option.splits)
qed

text \<open>
  A cube with the percentile coordinates \<open>percentile_over_realization\<close> and
  \<open>percentile_over_time\<close>, and a cube with the only coordinate \<open>time\<close>, whose blend with the
  weights 0.2, 0.3 and 0.5 is the weighted average 2.3.
\<close>

theorem process_percentile_dimension_error_witness:
  "outcome (process \<lparr>coord = ''time'', coord_adjust = None\<rparr>
      \<lparr>data = \<lparr>shape = [2, 3], flat = [0, 2, 4, 6, 8, 10]\<rparr>,
       coords = [\<lparr>name = ''time'', points = [0, 1], bounds = None, data_dim = Some 0\<rparr>,
                 \<lparr>name = ''percentile_over_realization'', points = [25, 50, 75], bounds = None,
                   data_dim = Some 1\<rparr>,
                 \<lparr>name = ''percentile_over_time'', points = [50], bounds = None,
                   data_dim = None\<rparr>]\<rparr> None) = Inl MultiplePercentileCoords
   \<and> outcome (process \<lparr>coord = ''time'', coord_adjust = None\<rparr>
      \<lparr>data = \<lparr>shape = [3], flat = [1, 2, 3]\<rparr>,
       coords = [\<lparr>name = ''time'', points = [0, 1, 2], bounds = None, data_dim = Some 0\<rparr>]\<rparr>
      (Some [2/10, 3/10, 5/10]))
     = mean_blend
         \<lparr>data = \<lparr>shape = [3], flat = [1, 2, 3]\<rparr>,
          coords = [\<lparr>name = ''time'', points = [0, 1, 2], bounds = None, data_dim = Some 0\<rparr>]\<rparr>
         ''time'' 0 (Some [2/10, 3/10, 5/10])"
proof -
  let ?self = "\<lparr>coord = ''time'', coord_adjust = None\<rparr>"
  let ?two = "\<lparr>data = \<lparr>shape = [2, 3], flat = [0, 2, 4, 6, 8, 10]\<rparr>,
       coords = [\<lparr>name = ''time'', points = [0, 1], bounds = None, data_dim = Some 0\<rparr>,
                 \<lparr>name = ''percentile_over_realization'', points = [25, 50, 75], bounds = None,
                   data_dim = Some 1\<rparr>,
                 \<lparr>name = ''percentile_over_time'', points = [50], bounds = None,
                   data_dim = None\<rparr>]\<rparr>"
  let ?none = "\<lparr>data = \<lparr>shape = [3], flat = [1, 2, 3]\<rparr>,
       coords = [\<lparr>name = ''time'', points = [0, 1, 2], bounds = None, data_dim = Some 0\<rparr>]\<rparr>"
  have two: "1 < length (percentile_coords ?two)"
    by (simp add: percentile_coords_def str_find_def)
  have none: "percentile_coords ?none = []"
    by (simp add: percentile_coords_def str_find_def)
  have cw: "check_weights ?none (coord ?self) (Some [2/10, 3/10, 5/10]) = Inr ()"
    by (simp add: check_weights_def cube_coord_def)
  have cd: "cube_coord_dims ?none (coord ?self) = Inr (Some 0)"
    by (simp add: cube_coord_dims_def cube_coord_def)
  obtain e where e: "process ?self ?two None = raise ?two e" "is_PercentileDimensionError e"
    using process_percentile_dimension_error [of ?two ?self None] two by blast
  have "process ?self ?two None = raise ?two MultiplePercentileCoords"
    using two by (intro process_check_fails check_percentile_many)
  then have 1: "outcome (process ?self ?two None) = Inl MultiplePercentileCoords"
    by (simp add: raise_def)
  have 2: "outcome (process ?self ?none (Some [2/10, 3/10, 5/10]))
             = mean_blend ?none ''time'' 0 (Some [2/10, 3/10, 5/10])"
    using process_percentile_dimension_error [of ?none ?self "Some [2/10, 3/10, 5/10]"] none cw cd
    by (simp split: sum.splits)
  show ?thesis using 1 2 by simp
qed

lemma percentile_check_passes:
  assumes "percentile_coords cube = []
     \<or> (\<exists>pc. percentile_coords cube = [pc] \<and> data_dim pc \<noteq> None \<and> 2 \<le> length (points pc))"
  obtains perc_coord perc_found where "find_percentile_coord cube = (perc_coord, perc_found)"
    and "check_percentile_coord cube perc_coord perc_found = Inr ()"
proof -
  from assms consider "percentile_coords cube = []"
    | pc where "percentile_coords cube = [pc]" "data_dim pc \<noteq> None" "2 \<le> length (points pc)"
    by blast
  then show ?thesis
  proof cases
    case 1
    then show ?thesis using that check_percentile_none by blast
  next
    case 2
    have "check_percentile_coord cube (Some pc) 1 = Inr ()"
      using 2(2,3) by (simp only: check_percentile_sole(2)[OF 2(1)]) auto
    then show ?thesis using that check_percentile_sole(1)[OF 2(1)] by blast
  qed
qed

subsection \<open>The check of the weights\<close>

text \<open>
  Claim C5, as amended. For a cube that passes the percentile checks and has exactly one
  coordinate of the name to blend over, weights whose length is not the number of points of
  that coordinate make \<open>process\<close> raise the error of the weight check, with no result and
  the cube as it was; weights of that length never end in this error.
\<close>

theorem process_weight_shape_mismatch:
  assumes "percentile_coords cube = []
     \<or> (\<exists>pc. percentile_coords cube = [pc] \<and> data_dim pc \<noteq> None \<and> 2 \<le> length (points pc))"
    and "cube_coord cube (coord self) = Inr c"
  shows "(length w \<noteq> length (points c)
            \<longrightarrow> process self cube (Some w) = raise cube WeightShapeMismatch)
       \<and> (length w = length (points c)
            \<longrightarrow> outcome (process self cube (Some w)) \<noteq> Inl WeightShapeMismatch)"
proof -
  obtain perc_coord perc_found where chk: "find_percentile_coord cube = (perc_coord, perc_found)"
    "check_percentile_coord cube perc_coord perc_found = Inr ()"
    using assms(1) by (rule percentile_check_passes)
  have cw: "check_weights cube (coord self) (Some w)
              = (if length w \<noteq> length (points c) then Inl WeightShapeMismatch else Inr ())"
    using assms(2) by (simp add: check_weights_def)
  have "process self cube (Some w) = raise cube WeightShapeMismatch"
    if "length w \<noteq> length (points c)"
    using that by (simp add: process_checked[OF chk] cw)
  moreover have "outcome (process self cube (Some w)) \<noteq> Inl WeightShapeMismatch"
    if "length w = length (points c)"
  proof
    assume "outcome (process self cube (Some w)) = Inl WeightShapeMismatch"
    moreover have "check_weights cube (coord self) (Some w) = Inr ()" using that cw by simp
    ultimately have "\<not> raised_by_checks WeightShapeMismatch"
      using process_checked_error[OF chk] by blast
    then show False by (simp add: raised_by_checks_def)
  qed
  ultimately show ?thesis by blast
qed

text \<open>
  A cube with the coordinate \<open>time\<close> of three points: two weights are rejected, three
  weights are not.
\<close>

theorem process_weight_shape_mismatch_witness:
  "outcome (process \<lparr>coord = ''time'', coord_adjust = None\<rparr>
      \<lparr>data = \<lparr>shape = [3], flat = [1, 2, 3]\<rparr>,
       coords = [\<lparr>name = ''time'', points = [0, 1, 2], bounds = None, data_dim = Some 0\<rparr>]\<rparr>
      (Some [1/2, 1/2])) = Inl WeightShapeMismatch
   \<and> outcome (process \<lparr>coord = ''time'', coord_adjust = None\<rparr>
      \<lparr>data = \<lparr>shape = [3], flat = [1, 2, 3]\<rparr>,
       coords = [\<lparr>name = ''time'', points = [0, 1, 2], bounds = None, data_dim = Some 0\<rparr>]\<rparr>
      (Some [2/10, 3/10, 5/10])) \<noteq> Inl WeightShapeMismatch"
proof -
  let ?self = "\<lparr>coord = ''time'', coord_adjust = None\<rparr>"
  let ?c = "\<lparr>name = ''time'', points = [0, 1, 2], bounds = None, data_dim = Some 0\<rparr>"
  let ?cube = "\<lparr>data = \<lparr>shape = [3], flat = [1, 2, 3]\<rparr>, coords = [?c]\<rparr>"
  have p: "percentile_coords ?cube = []
     \<or> (\<exists>pc. percentile_coords ?cube = [pc] \<and> data_dim pc \<noteq> None \<and> 2 \<le> length (points pc))"
    by (simp add: percentile_coords_def str_find_def)
  have c: "cube_coord ?cube (coord ?self) = Inr ?c" by (simp add: cube_coord_def)
  show ?thesis
    using process_weight_shape_mismatch [OF p c, of "[1/2, 1/2]"]
      process_weight_shape_mismatch [OF p c, of "[2/10, 3/10, 5/10]"]
    by (simp add: raise_def)
qed

text \<open>
  Claim C5 as stated, for every cube, fails on a cube with two percentile coordinates: the
  percentile checks come first, and the call ends in their error whatever the weights are.
  The coordinate \<open>time\<close> has two points and there is one weight.
\<close>

theorem process_weight_shape_mismatch_counterexample:
  "cube_coord
      \<lparr>data = \<lparr>shape = [2, 3], flat = [0, 2, 4, 6, 8, 10]\<rparr>,
       coords = [\<lparr>name = ''time'', points = [0, 1], bounds = None, data_dim = Some 0\<rparr>,
                 \<lparr>name = ''percentile_over_realization'', points = [25, 50, 75], bounds = None,
                   data_dim = Some 1\<rparr>,
                 \<lparr>name = ''percentile_over_time'', points = [50], bounds = None,
                   data_dim = None\<rparr>]\<rparr> ''time''
     = Inr \<lparr>name = ''time'', points = [0, 1], bounds = None, data_dim = Some 0\<rparr>
   \<and> length [1::real] \<noteq> length [0, 1::real]
   \<and> outcome (process \<lparr>coord = ''time'', coord_adjust = None\<rparr>
      \<lparr>data = \<lparr>shape = [2, 3], flat = [0, 2, 4, 6, 8, 10]\<rparr>,
       coords = [\<lparr>name = ''time'', points = [0, 1], bounds = None, data_dim = Some 0\<rparr>,
                 \<lparr>name = ''percentile_over_realization'', points = [25, 50, 75], bounds = None,
                   data_dim = Some 1\<rparr>,
                 \<lparr>name = ''percentile_over_time'', points = [50], bounds = None,
                   data_dim = None\<rparr>]\<rparr> (Some [1])) = Inl MultiplePercentileCoords"
  by (simp add: process_def find_percentile_coord_def check_percentile_coord_def str_find_def
      cube_coord_def raise_def)

subsection \<open>Blending over a scalar coordinate\<close>




subsection \<open>The weighted average\<close>










lemma cube_coord_member: "cube_coord cube nm = Inr c \<Longrightarrow> c \<in> set (coords cube) \<and> name c = nm"
proof -
  assume "cube_coord cube nm = Inr c"
  then have "filter (\<lambda>x. name x = nm) (coords cube) = [c]"
    by (auto simp: cube_coord_def split: list.splits)
  then have "c \<in> set (filter (\<lambda>x. name x = nm) (coords cube))" by simp
  then show ?thesis by simp
qed




subsection \<open>What the calls leave of the caller's cube\<close>

lemma process_input_unchanged:
  assumes "cube_coord_dims cube (coord self) \<noteq> Inr None \<or> coord_adjust self = None"
  shows "input_cube (process self cube weights) = cube"
  using assms
  by (auto simp: process_def raise_def split_def Let_def adjust_coords_cube_unchanged
      split: sum.splits option.splits)

lemma process_returns_input:
  "returns_input (process self cube weights) \<Longrightarrow> cube_coord_dims cube (coord self) = Inr None"
  by (auto simp: process_def raise_def split_def Let_def split: sum.splits option.splits)

lemma guess_bounds_fields:
  assumes "guess_bounds c = Inr c'"
  shows "bounds c = None" "bounds c' \<noteq> None" "name c' = name c" "data_dim c' = data_dim c"
    "points c' = points c"
  using assms by (auto simp: guess_bounds_def Let_def split: if_splits)

lemma adds_guessed_bounds_refl: "adds_guessed_bounds cube cube"
  by (simp add: adds_guessed_bounds_def list_all2_refl)

lemma add_bounds_adds:
  "adds_guessed_bounds cube0 cube \<Longrightarrow> adds_guessed_bounds cube0 (fst (add_bounds cube nms))"
proof (induction nms arbitrary: cube)
  case Nil
  then show ?case by simp
next
  case (Cons nm nms)
  show ?case
  proof (cases "cube_coord cube nm")
    case (Inl e)
    then show ?thesis using Cons.prems by simp
  next
    case (Inr x)
    show ?thesis
    proof (cases "guess_bounds x")
      case (Inl e)
      then show ?thesis using Inr Cons.prems by simp
    next
      case g: (Inr x')
      let ?cube' = "cube\<lparr>coords := map (\<lambda>y. if name y = nm then x' else y) (coords cube)\<rparr>"
      have only: "filter (\<lambda>y. name y = nm) (coords cube) = [x]"
        using Inr by (auto simp: cube_coord_def split: list.splits)
      have eq: "y = x" if "y \<in> set (coords cube)" "name y = nm" for y
      proof -
        have "y \<in> set (filter (\<lambda>y. name y = nm) (coords cube))" using that by simp
        then show ?thesis by (simp add: only)
      qed
      have rel: "list_all2 (\<lambda>c c'. c' = c \<or> guess_bounds c = Inr c') (coords cube0) (coords cube)"
        and dat: "data cube = data cube0"
        using Cons.prems by (simp_all add: adds_guessed_bounds_def)
      have "list_all2 (\<lambda>c c'. c' = c \<or> guess_bounds c = Inr c') (coords cube0)
              (map (\<lambda>y. if name y = nm then x' else y) (coords cube))"
        unfolding list_all2_conv_all_nth
      proof (intro conjI allI impI)
        show "length (coords cube0) = length (map (\<lambda>y. if name y = nm then x' else y) (coords cube))"
          using rel by (simp add: list_all2_lengthD)
      next
        fix k assume k: "k < length (coords cube0)"
        then have k': "k < length (coords cube)" using rel by (simp add: list_all2_lengthD)
        let ?c = "coords cube0 ! k" and ?y = "coords cube ! k"
        have R: "?y = ?c \<or> guess_bounds ?c = Inr ?y"
          using list_all2_nthD[OF rel k] by simp
        have mem: "?y \<in> set (coords cube)" using k' by simp
        show "map (\<lambda>y. if name y = nm then x' else y) (coords cube) ! k = ?c
                \<or> guess_bounds ?c = Inr (map (\<lambda>y. if name y = nm then x' else y) (coords cube) ! k)"
        proof (cases "name ?y = nm")
          case True
          then have yx: "?y = x" using eq mem by blast
          have "guess_bounds ?c \<noteq> Inr x"
            using guess_bounds_fields(1)[OF g] guess_bounds_fields(2)[of ?c x] by auto
          then have "?c = x" using R yx by auto
          then show ?thesis using True g k' by simp
        next
          case False
          then show ?thesis using R k' by simp
        qed
      qed
      then have "adds_guessed_bounds cube0 ?cube'"
        using dat by (simp add: adds_guessed_bounds_def)
      then have "adds_guessed_bounds cube0 (fst (add_bounds ?cube' nms))" by (rule Cons.IH)
      then show ?thesis using Inr g by simp
    qed
  qed
qed

lemma cube_coord_dims_alt:
  "cube_coord_dims cube nm
     = (case map data_dim (filter (\<lambda>c. name c = nm) (coords cube)) of
          [d] \<Rightarrow> Inr d
        | _ \<Rightarrow> Inl CoordinateNotFoundError)"
  by (simp add: cube_coord_dims_def cube_coord_def split: list.splits)

lemma guessed_same_dims:
  "list_all2 (\<lambda>c c'. c' = c \<or> guess_bounds c = Inr c') cs cs' \<Longrightarrow>
     map data_dim (filter (\<lambda>c. name c = nm) cs') = map data_dim (filter (\<lambda>c. name c = nm) cs)"
  by (induction cs cs' rule: list_all2_induct) (auto dest: guess_bounds_fields(3,4))

lemma adds_guessed_bounds_dims:
  "adds_guessed_bounds cube cube' \<Longrightarrow> cube_coord_dims cube' nm = cube_coord_dims cube nm"
proof -
  assume "adds_guessed_bounds cube cube'"
  then have "map data_dim (filter (\<lambda>c. name c = nm) (coords cube'))
               = map data_dim (filter (\<lambda>c. name c = nm) (coords cube))"
    unfolding adds_guessed_bounds_def by (intro guessed_same_dims) simp
  then show ?thesis by (simp only: cube_coord_dims_alt)
qed

lemma blend_slices_keeps_cube:
  assumes "cube_coord_dims cube nm \<noteq> Inr None"
  shows "fst (blend_slices W nm names cube msgs slices acc) = cube"
proof (induction slices arbitrary: msgs acc)
  case Nil
  then show ?case by simp
next
  case (Cons cube_slice slices)
  have inp: "input_cube (process \<lparr>coord = nm, coord_adjust = None\<rparr> cube ws) = cube" for ws
    by (rule process_input_unchanged) simp
  have ret: "\<not> returns_input (process \<lparr>coord = nm, coord_adjust = None\<rparr> cube ws)" for ws
    using process_returns_input[of "\<lparr>coord = nm, coord_adjust = None\<rparr>" cube ws] assms by auto
  show ?case
    by (auto simp: Let_def inp ret split_def Cons.IH split: sum.splits)
qed

lemma triangular_input_cube:
  assumes "cube_coord_dims cube (coord self) = Inr (Some d)"
  shows "input_cube (triangular_process W C self cube)
           = fst (add_bounds cube (map name (filter (\<lambda>c. data_dim c = Some d) (coords cube))))"
proof -
  let ?names = "map name (filter (\<lambda>c. data_dim c = Some d) (coords cube))"
  let ?cube1 = "fst (add_bounds cube ?names)"
  have "adds_guessed_bounds cube ?cube1"
    by (intro add_bounds_adds adds_guessed_bounds_refl)
  then have "cube_coord_dims ?cube1 (coord self) = Inr (Some d)"
    using assms by (simp add: adds_guessed_bounds_dims)
  then have "fst (blend_slices W' (coord self) ?names ?cube1 msgs slices acc) = ?cube1"
    for W' msgs slices acc
    by (intro blend_slices_keeps_cube) simp
  then show ?thesis
    by (simp add: triangular_process_def assms raise_def split_def Let_def split: sum.splits)
qed

lemma scalar_guess_fails:
  assumes "wf_cube cube" "cube_coord_dims cube nm = Inr None"
  shows "\<exists>e. add_bounds cube (map name (filter (\<lambda>c. data_dim c = None) (coords cube)))
           = (cube, Inl e)"
proof -
  obtain c where c: "cube_coord cube nm = Inr c" "data_dim c = None"
    using assms(2) by (auto simp: cube_coord_dims_def split: sum.splits)
  then have "c \<in> set (filter (\<lambda>c. data_dim c = None) (coords cube))"
    using cube_coord_member[OF c(1)] by simp
  then obtain c0 rest where f: "filter (\<lambda>c. data_dim c = None) (coords cube) = c0 # rest"
    by (cases "filter (\<lambda>c. data_dim c = None) (coords cube)") auto
  then have "c0 \<in> set (filter (\<lambda>c. data_dim c = None) (coords cube))" by simp
  then have c0: "c0 \<in> set (coords cube)" "data_dim c0 = None" by auto
  have dist: "distinct (map name (coords cube))" using assms(1) by (simp add: wf_cube_def)
  obtain c' where "filter (\<lambda>x. name x = name c0) (coords cube) = [c']"
    using unique_by_name[OF dist, of "name c0"] c0(1) by auto
  moreover have "c0 \<in> set (filter (\<lambda>x. name x = name c0) (coords cube))" using c0(1) by simp
  ultimately have look: "cube_coord cube (name c0) = Inr c0" by (simp add: cube_coord_def)
  have "wf_coordinate (shape (data cube)) c0"
    using assms(1) c0(1) by (auto simp: wf_cube_def list_all_iff)
  then have "length (points c0) = 1" using c0(2) by (simp add: wf_coordinate_def)
  then have "guess_bounds c0 = Inl GuessBoundsError" by (simp add: guess_bounds_def)
  then show ?thesis using f look by simp
qed

text \<open>
  Claim C4, as amended. \<open>WeightedBlendAcrossWholeDimension.process\<close> leaves the cube it is
  called with as it was whenever the coordinate to blend over is not scalar or no
  \<open>coord_adjust\<close> is set. \<open>TriangularWeightedBlendAcrossAdjacentPoints.process\<close>, whatever
  the two collaborators return, leaves the data, the names, the points and the dimensions
  of the coordinates of a well-formed cube as they were, and the only change it makes is to
  give guessed bounds to coordinates that had none.
\<close>

theorem input_cube_frame:
  "(cube_coord_dims cube (coord self) \<noteq> Inr None \<or> coord_adjust self = None
      \<longrightarrow> input_cube (process self cube weights) = cube)
   \<and> (wf_cube cube
      \<longrightarrow> adds_guessed_bounds cube
            (input_cube (triangular_process WeightsPlugin concatenate self' cube)))"
proof (intro conjI impI)
  assume "cube_coord_dims cube (coord self) \<noteq> Inr None \<or> coord_adjust self = None"
  then show "input_cube (process self cube weights) = cube" by (rule process_input_unchanged)
next
  assume wf: "wf_cube cube"
  show "adds_guessed_bounds cube
          (input_cube (triangular_process WeightsPlugin concatenate self' cube))"
  proof (cases "cube_coord_dims cube (coord self')")
    case (Inl e)
    then show ?thesis
      by (simp add: triangular_process_def raise_def adds_guessed_bounds_refl)
  next
    case (Inr dims)
    show ?thesis
    proof (cases dims)
      case None
      obtain e where "add_bounds cube (map name (filter (\<lambda>c. data_dim c = None) (coords cube)))
                        = (cube, Inl e)"
        using scalar_guess_fails[OF wf] Inr None by blast
      then show ?thesis
        using Inr None by (simp add: triangular_process_def raise_def adds_guessed_bounds_refl)
    next
      case (Some d)
      show ?thesis
        using Inr Some
        by (simp add: triangular_input_cube add_bounds_adds adds_guessed_bounds_refl)
    qed
  qed
qed

text \<open>
  A cube with the coordinate \<open>time\<close> of three points and no bounds, blended over \<open>time\<close>
  by either plugin.
\<close>

theorem input_cube_frame_witness:
  "input_cube (process \<lparr>coord = ''time'', coord_adjust = Some (\<lambda>pnts. [pnts ! (length pnts div 2)])\<rparr>
      \<lparr>data = \<lparr>shape = [3], flat = [1, 2, 4]\<rparr>,
       coords = [\<lparr>name = ''time'', points = [0, 1, 2], bounds = None, data_dim = Some 0\<rparr>]\<rparr>
      (Some [1/4, 1/2, 1/4]))
     = \<lparr>data = \<lparr>shape = [3], flat = [1, 2, 4]\<rparr>,
        coords = [\<lparr>name = ''time'', points = [0, 1, 2], bounds = None, data_dim = Some 0\<rparr>]\<rparr>
   \<and> adds_guessed_bounds
        \<lparr>data = \<lparr>shape = [3], flat = [1, 2, 4]\<rparr>,
         coords = [\<lparr>name = ''time'', points = [0, 1, 2], bounds = None, data_dim = Some 0\<rparr>]\<rparr>
        (input_cube (triangular_process ChooseDefaultWeightsTriangular_process concatenate_cubes
           \<lparr>coord = ''time'', width = 2, parameter_units = ''hours''\<rparr>
           \<lparr>data = \<lparr>shape = [3], flat = [1, 2, 4]\<rparr>,
            coords = [\<lparr>name = ''time'', points = [0, 1, 2], bounds = None, data_dim = Some 0\<rparr>]\<rparr>))"
proof -
  let ?cube = "\<lparr>data = \<lparr>shape = [3], flat = [1, 2, 4]\<rparr>,
       coords = [\<lparr>name = ''time'', points = [0, 1, 2], bounds = None, data_dim = Some 0\<rparr>]\<rparr>"
  let ?self = "\<lparr>coord = ''time'', coord_adjust = Some (\<lambda>pnts::real list. [pnts ! (length pnts div 2)])\<rparr>"
  have d: "cube_coord_dims ?cube (coord ?self) \<noteq> Inr None \<or> coord_adjust ?self = None"
    by (simp add: cube_coord_dims_def cube_coord_def)
  have wf: "wf_cube ?cube" by (simp add: wf_cube_def wf_array_def wf_coordinate_def)
  show ?thesis
    using input_cube_frame [of ?cube ?self "Some [1/4, 1/2, 1/4]"
        ChooseDefaultWeightsTriangular_process concatenate_cubes
        "\<lparr>coord = ''time'', width = 2, parameter_units = ''hours''\<rparr>"] d wf
    by blast
qed

text \<open>
  Claim C4 as stated fails for \<open>TriangularWeightedBlendAcrossAdjacentPoints.process\<close>: its
  first loop calls \<open>guess_bounds\<close> on the coordinates of the cube it was given, so that
  afterwards the coordinate \<open>time\<close> of the caller's cube, which had no bounds, has them.
\<close>

theorem input_cube_frame_counterexample:
  "bounds (hd (coords
      \<lparr>data = \<lparr>shape = [3], flat = [1, 2, 4]\<rparr>,
       coords = [\<lparr>name = ''time'', points = [0, 1, 2], bounds = None, data_dim = Some 0\<rparr>]\<rparr>))
     = None
   \<and> coords (input_cube (triangular_process ChooseDefaultWeightsTriangular_process concatenate_cubes
        \<lparr>coord = ''time'', width = 2, parameter_units = ''hours''\<rparr>
        \<lparr>data = \<lparr>shape = [3], flat = [1, 2, 4]\<rparr>,
         coords = [\<lparr>name = ''time'', points = [0, 1, 2], bounds = None, data_dim = Some 0\<rparr>]\<rparr>))
     = [\<lparr>name = ''time'', points = [0, 1, 2],
         bounds = Some [(- (1/2), 1/2), (1/2, 3/2), (3/2, 5/2)], data_dim = Some 0\<rparr>]"
proof -
  let ?cube = "\<lparr>data = \<lparr>shape = [3], flat = [1, 2, 4]\<rparr>,
       coords = [\<lparr>name = ''time'', points = [0, 1, 2], bounds = None, data_dim = Some 0\<rparr>]\<rparr>"
  let ?self = "\<lparr>coord = ''time'', width = 2, parameter_units = ''hours''\<rparr>"
  have d: "cube_coord_dims ?cube (coord ?self) = Inr (Some 0)"
    by (simp add: cube_coord_dims_def cube_coord_def)
  have "coords (fst (add_bounds ?cube (map name (filter (\<lambda>c. data_dim c = Some 0) (coords ?cube)))))
          = [\<lparr>name = ''time'', points = [0, 1, 2],
              bounds = Some [(- (1/2), 1/2), (1/2, 3/2), (3/2, 5/2)], data_dim = Some 0\<rparr>]"
    by (simp add: cube_coord_def guess_bounds_def Let_def upt_rec)
  then show ?thesis by (simp only: triangular_input_cube[OF d]) simp
qed

text \<open>
  The same call in full: the three blended slices, joined again, and the caller's cube with
  the bounds.
\<close>

lemma triangular_process_example:
  "triangular_process ChooseDefaultWeightsTriangular_process concatenate_cubes
      \<lparr>coord = ''time'', width = 2, parameter_units = ''hours''\<rparr>
      \<lparr>data = \<lparr>shape = [3], flat = [1, 2, 4]\<rparr>,
       coords = [\<lparr>name = ''time'', points = [0, 1, 2], bounds = None, data_dim = Some 0\<rparr>]\<rparr>
     = \<lparr>input_cube =
          \<lparr>data = \<lparr>shape = [3], flat = [1, 2, 4]\<rparr>,
           coords = [\<lparr>name = ''time'', points = [0, 1, 2],
                      bounds = Some [(- (1/2), 1/2), (1/2, 3/2), (3/2, 5/2)], data_dim = Some 0\<rparr>]\<rparr>,
        warnings = [],
        outcome = Inr
          \<lparr>data = \<lparr>shape = [3], flat = [4/3, 9/4, 10/3]\<rparr>,
           coords = [\<lparr>name = ''time'', points = [0, 1, 2],
                      bounds = Some [(- (1/2), 1/2), (1/2, 3/2), (3/2, 5/2)], data_dim = Some 0\<rparr>]\<rparr>,
        returns_input = False\<rparr>"
  by code_simp

end
